theory Spec2Isabelle
  imports Complex_Main "HOL-Library.Char_ord" "HOL-Library.List_Lexorder"
begin

section \<open>Conventions of the embedding\<close>

text \<open>
  The repository is a numpy/xarray pipeline. Array elements are modelled as \<^typ>\<open>real\<close>
  numbers: the rounding of float64 arithmetic and of the float32 storage casts is not part
  of the model, and there is no NaN or infinity. The one exception is the product
  \<open>rh * 100\<close> that is floored into a humidity bin: there the rounding decides an
  integer, and the product as the machine computes it is a parameter of the model.
  Python integers are \<^typ>\<open>int\<close>.
  Every exception the modelled code can raise is a value of \<open>error\<close>; a computation
  returns \<open>error + 'a\<close> with \<open>Inl\<close> for the exception.
\<close>

datatype error = IndexError | ValueError | KeyError | NameError | FileNotFoundError | CastOverflow

text \<open>
  \<open>CastOverflow\<close> is not a Python exception. The conversion of a float to
  \<open>np.int32\<close> has a platform-defined result when the value does not fit into 32 bits; the
  model stops there with this value instead of inventing a result.
\<close>

definition ebind :: "error + 'a \<Rightarrow> ('a \<Rightarrow> error + 'b) \<Rightarrow> error + 'b" where
  "ebind m f = (case m of Inl e \<Rightarrow> Inl e | Inr x \<Rightarrow> f x)"

fun emap :: "('a \<Rightarrow> error + 'b) \<Rightarrow> 'a list \<Rightarrow> error + 'b list" where
  "emap f [] = Inr []"
| "emap f (x # xs) = ebind (f x) (\<lambda>y. ebind (emap f xs) (\<lambda>ys. Inr (y # ys)))"

section \<open>Python and numpy primitives\<close>

text \<open>Indexing one axis of length \<open>n\<close> with a Python integer: negative indices count from the end.\<close>

definition py_index :: "nat \<Rightarrow> int \<Rightarrow> error + nat" where
  "py_index n i =
     (if 0 \<le> i \<and> i < int n then Inr (nat i)
      else if - int n \<le> i \<and> i < 0 then Inr (nat (int n + i))
      else Inl IndexError)"


text \<open>\<open>pat in s\<close> on strings.\<close>

fun contains :: "string \<Rightarrow> string \<Rightarrow> bool" where
  "contains pat [] = (pat = [])"
| "contains pat (c # cs) = (take (length pat) (c # cs) = pat \<or> contains pat cs)"

text \<open>
  \<open>s.replace(old, new)\<close> for a non-empty \<open>old\<close>: every non-overlapping occurrence, from
  the left. The callers below only pass non-empty literals.
\<close>

fun replace :: "string \<Rightarrow> string \<Rightarrow> string \<Rightarrow> string" where
  "replace old new [] = []"
| "replace old new (c # cs) =
     (if old \<noteq> [] \<and> take (length old) (c # cs) = old
      then new @ replace old new (drop (length old) (c # cs))
      else c # replace old new cs)"







text \<open>\<open>xs[::2]\<close>, \<open>xs[1::2]\<close> and \<open>xs[:-1:2]\<close>.\<close>

fun evens :: "'a list \<Rightarrow> 'a list" where
  "evens [] = []"
| "evens [x] = [x]"
| "evens (x # y # xs) = x # evens xs"

definition odds :: "'a list \<Rightarrow> 'a list" where
  "odds xs = evens (tl xs)"

definition evens_butlast :: "'a list \<Rightarrow> 'a list" where
  "evens_butlast xs = evens (butlast xs)"

text \<open>Binary numpy operators on one-dimensional arrays: equal lengths, or one operand of length 1.\<close>

definition bcast2 :: "(real \<Rightarrow> real \<Rightarrow> real) \<Rightarrow> real list \<Rightarrow> real list \<Rightarrow> error + real list" where
  "bcast2 f xs ys =
     (if length xs = length ys then Inr (map2 f xs ys)
      else if length xs = 1 then Inr (map (f (hd xs)) ys)
      else if length ys = 1 then Inr (map (\<lambda>x. f x (hd ys)) xs)
      else Inl ValueError)"

text \<open>\<open>np.clip(a, lo, hi)\<close> is \<open>minimum(maximum(a, lo), hi)\<close>.\<close>

definition clip :: "real \<Rightarrow> real \<Rightarrow> real \<Rightarrow> real" where
  "clip a lo hi = min (max a lo) hi"

text \<open>\<open>np.array(x, dtype=np.int32)\<close> applied to a float that is already integral.\<close>

definition to_int32 :: "real \<Rightarrow> error + int" where
  "to_int32 x = (if - (2 ^ 31) \<le> \<lfloor>x\<rfloor> \<and> \<lfloor>x\<rfloor> < 2 ^ 31 then Inr \<lfloor>x\<rfloor> else Inl CastOverflow)"



section \<open>Three-dimensional fields\<close>

text \<open>
  A field on the (level, latitude, longitude) grid is a nested list, indexed
  \<open>x ! lev ! lat ! lon\<close>. \<open>reshape3\<close> is \<open>a.reshape(nlev, nlat, nlon)\<close> on a flat array in
  C order; it raises when the size does not match.
\<close>

type_synonym plane = "real list list"
type_synonym field3 = "real list list list"

fun chunks :: "nat \<Rightarrow> nat \<Rightarrow> 'a list \<Rightarrow> 'a list list" where
  "chunks 0 w xs = []"
| "chunks (Suc n) w xs = take w xs # chunks n w (drop w xs)"

definition reshape3 :: "nat \<Rightarrow> nat \<Rightarrow> nat \<Rightarrow> real list \<Rightarrow> error + field3" where
  "reshape3 nlev nlat nlon xs =
     (if length xs = nlev * nlat * nlon
      then Inr (map (chunks nlat nlon) (chunks nlev (nlat * nlon) xs))
      else Inl ValueError)"

definition add_plane :: "plane \<Rightarrow> plane \<Rightarrow> plane" where
  "add_plane a b = map2 (map2 (+)) a b"

definition scale_plane :: "real \<Rightarrow> plane \<Rightarrow> plane" where
  "scale_plane c a = map (map ((*) c)) a"

text \<open>
  \<open>a.sum(axis=0)\<close> of an array of shape \<open>(k, rows, cols)\<close>: the planes are added onto a zero
  plane of shape \<open>(rows, cols)\<close>; \<open>a.mean(axis=0)\<close> divides the sum by \<open>k\<close>.
\<close>

definition sum_axis0 :: "nat \<Rightarrow> nat \<Rightarrow> field3 \<Rightarrow> plane" where
  "sum_axis0 rows cols a = foldl add_plane (replicate rows (replicate cols 0)) a"

definition mean_axis0 :: "nat \<Rightarrow> nat \<Rightarrow> field3 \<Rightarrow> plane" where
  "mean_axis0 rows cols a = map (map (\<lambda>s. s / real (length a))) (sum_axis0 rows cols a)"

text \<open>
  Assigning a value of shape \<open>(a, b)\<close> into a slice of shape \<open>(rows, cols)\<close>: each axis of
  the value must have the target length or length 1, in which case it is repeated.
\<close>

definition broadcast_axis :: "nat \<Rightarrow> nat \<Rightarrow> 'a list \<Rightarrow> error + 'a list" where
  "broadcast_axis have want xs =
     (if have = want then Inr xs
      else if have = 1 then Inr (replicate want (hd xs))
      else Inl ValueError)"

definition assign_plane :: "nat \<Rightarrow> nat \<Rightarrow> nat \<Rightarrow> nat \<Rightarrow> plane \<Rightarrow> error + plane" where
  "assign_plane a b rows cols v =
     ebind (broadcast_axis a rows v) (\<lambda>v'. emap (broadcast_axis b cols) v')"

section \<open>species\_optics.py: optics table and band selection\<close>

definition g_earth :: real where
  "g_earth = 98 / 10"

text \<open>
  The optics table \<open>ds_optics\<close>: three coefficient arrays of one shape
  \<open>(radius, rh, lambda)\<close>. An array is its shape and its element function.
\<close>

record optics =
  n_size :: nat
  n_rh :: nat
  n_wvl :: nat
  ext :: "nat \<Rightarrow> nat \<Rightarrow> nat \<Rightarrow> real"
  sca :: "nat \<Rightarrow> nat \<Rightarrow> nat \<Rightarrow> real"
  asm :: "nat \<Rightarrow> nat \<Rightarrow> nat \<Rightarrow> real"
  lambda :: "real list"

text \<open>
  \<open>rh_interp\<close> resamples a coarse table onto \<open>rh_fine = np.arange(0, 1, 0.01)\<close>. The
  interpolator \<open>interp1d(x, y, kind='linear', fill_value='extrapolate')\<close> is the library's
  and is a parameter \<open>interp x y\<close> here; the coarse arrays are read along their humidity
  axis, of length \<open>length rh_coarse\<close>.
\<close>

definition rh_fine :: "real list" where
  "rh_fine = map (\<lambda>i. real i * (1 / 100)) [0..<100]"

definition rh_interp ::
  "(real list \<Rightarrow> real list \<Rightarrow> real \<Rightarrow> real) \<Rightarrow> real list \<Rightarrow> optics \<Rightarrow> optics" where
  "rh_interp interp rh_coarse ds_coarse =
     (let nrh = length rh_fine;
          fine = (\<lambda>coef r h k.
            interp rh_coarse (map (\<lambda>j. coef r j k) [0..<length rh_coarse]) (rh_fine ! h))
      in \<lparr>n_size = n_size ds_coarse, n_rh = nrh, n_wvl = n_wvl ds_coarse,
          ext = fine (ext ds_coarse), sca = fine (sca ds_coarse), asm = fine (asm ds_coarse),
          lambda = lambda ds_coarse\<rparr>)"

text \<open>
  \<open>a[idx_size, idx_rh, idx_wvl]\<close> with two integers and one integer array: every index is
  checked against its axis, the result has one entry per entry of \<open>idx_rh\<close>.
\<close>

definition gather ::
  "optics \<Rightarrow> (nat \<Rightarrow> nat \<Rightarrow> nat \<Rightarrow> real) \<Rightarrow> int \<Rightarrow> int list \<Rightarrow> int \<Rightarrow> error + real list" where
  "gather t coef idx_size idx_rh idx_wvl =
     ebind (py_index (n_size t) idx_size) (\<lambda>r.
     ebind (emap (py_index (n_rh t)) idx_rh) (\<lambda>hs.
     ebind (py_index (n_wvl t) idx_wvl) (\<lambda>w.
       Inr (map (\<lambda>h. coef r h w) hs))))"



section \<open>species\_optics.py: the converter for one time step\<close>

text \<open>
  One time step of the input file: the grid shape taken from \<open>ds['RH'].shape\<close>, the
  flattened \<open>RH\<close> and \<open>DELP\<close> arrays and the flattened mixing ratio of each species
  variable of the file. Latitude and longitude values, \<open>PS\<close>, file names and attributes
  take no part in the fields computed and are left out.

  \<open>mul100 s x\<close> is the product \<open>x * 100\<close> in the floating-point arithmetic of the
  \<open>RH\<close> array of the file (float32 for the GEOS-IT files): a rounding of the exact
  product, which may lie on the other side of an integer.
\<close>

record snapshot =
  nlev :: nat
  nlat :: nat
  nlon :: nat
  RH :: "real list"
  DELP :: "real list"
  mixing :: "string \<Rightarrow> real list option"
  mul100 :: "real \<Rightarrow> real"

text \<open>
  What the statements below use of a floating-point product with 100 in round-to-nearest: it
  is monotone, exact at 0 and at -1, and negative on negative numbers.
\<close>

definition rounded_product :: "(real \<Rightarrow> real) \<Rightarrow> bool" where
  "rounded_product m \<longleftrightarrow>
     (\<forall>x y. x \<le> y \<longrightarrow> m x \<le> m y) \<and> m 0 = 0 \<and> m (- 1) = - 100 \<and> (\<forall>x. x < 0 \<longrightarrow> m x < 0)"


text \<open>
  Lines 143 to 148: the humidity bin of every cell. \<open>m\<close> is the floating-point product
  with 100, so that \<open>\<lfloor>m rh\<rfloor>\<close> is \<open>np.floor(rh * 100)\<close>.
\<close>

definition humidity_bin :: "(real \<Rightarrow> real) \<Rightarrow> real \<Rightarrow> error + int" where
  "humidity_bin m rh =
     ebind (to_int32 (real_of_int \<lfloor>m rh\<rfloor>)) (\<lambda>i. Inr (if i > 99 then 99 else i))"

definition idx_rh_of :: "(real \<Rightarrow> real) \<Rightarrow> string \<Rightarrow> real list \<Rightarrow> error + int list" where
  "idx_rh_of m species rh =
     (if contains ''PHO'' species then Inr (replicate (length rh) 0)
      else emap (humidity_bin m) rh)"

text \<open>Lines 158 and 159: \<open>delp * q_species * k / g_earth\<close>, evaluated from the left.\<close>

definition layer_tau :: "real list \<Rightarrow> real list \<Rightarrow> real list \<Rightarrow> error + real list" where
  "layer_tau delp q_species k =
     ebind (bcast2 (*) delp q_species) (\<lambda>dq.
     ebind (bcast2 (*) dq k) (\<lambda>dqk.
       Inr (map (\<lambda>x. x / g_earth) dqk)))"

text \<open>
  Lines 180 to 208. \<open>mid_lat\<close> is \<open>0.5 * (a[:,:-1,:] + a[:,1:,:])\<close>: the two slices are
  taken along the latitude axis. For output level \<open>ilev\<close> the three levels from
  \<open>3 * ilev\<close> are added (or averaged), over the rows \<open>:-1:2\<close> and \<open>1::2\<close> and the columns
  \<open>::2\<close>; half the sum of the two is assigned to the slice \<open>[ilev,:,:]\<close> of an array of
  shape \<open>(nlev // 3, nlat // 2, nlon // 2)\<close>.
\<close>

definition mid_lat :: "field3 \<Rightarrow> field3" where
  "mid_lat a = map (\<lambda>p. scale_plane 0.5 (add_plane (butlast p) (tl p))) a"

definition sel_rows :: "nat \<Rightarrow> nat" where
  "sel_rows nlat' = (nlat' - 1) div 2"

definition sel_cols :: "nat \<Rightarrow> nat" where
  "sel_cols nlon' = (nlon' + 1) div 2"

definition block_value ::
  "(nat \<Rightarrow> nat \<Rightarrow> field3 \<Rightarrow> plane) \<Rightarrow> nat \<Rightarrow> nat \<Rightarrow> field3 \<Rightarrow> nat \<Rightarrow> plane" where
  "block_value red nlat' nlon' a_mid ilev =
     (let ilev_start = 3 * ilev;
          sl = take 3 (drop ilev_start a_mid);
          r = sel_rows nlat'; c = sel_cols nlon'
      in scale_plane 0.5
           (add_plane (red r c (map (\<lambda>p. map evens (evens_butlast p)) sl))
                      (red r c (map (\<lambda>p. map evens (odds p)) sl))))"

definition subsample ::
  "(nat \<Rightarrow> nat \<Rightarrow> field3 \<Rightarrow> plane) \<Rightarrow> nat \<Rightarrow> nat \<Rightarrow> nat \<Rightarrow> field3 \<Rightarrow> error + field3" where
  "subsample red nlev' nlat' nlon' a =
     emap (\<lambda>ilev. assign_plane (sel_rows nlat') (sel_cols nlon') (nlat' div 2) (nlon' div 2)
                     (block_value red nlat' nlon' (mid_lat a) ilev))
          [0..<nlev' div 3]"

text \<open>Lines 210 to 212.\<close>

definition clip_ext :: "field3 \<Rightarrow> field3" where
  "clip_ext e = map (map (map (\<lambda>x. clip x 0 10))) e"

definition clip_sca :: "field3 \<Rightarrow> field3 \<Rightarrow> field3" where
  "clip_sca s e = map2 (map2 (map2 (\<lambda>x hi. clip x 0 hi))) s e"

definition clip_asm :: "field3 \<Rightarrow> field3" where
  "clip_asm a = map (map (map (\<lambda>x. clip x (- 1) 1))) a"

record native_fields =
  da_delp :: field3
  da_tau_ext :: field3
  da_tau_sca :: field3
  da_asm :: field3
  da_tau_ext_column :: plane

record sub_fields =
  da_delp_sub :: field3
  da_tau_ext_sub :: field3
  da_tau_sca_sub :: field3
  da_asm_sub :: field3
  da_tau_ext_sub_column :: plane

text \<open>
  The values before clipping are kept in a record of their own, so that statements about
  the clipping step can name them.
\<close>

record raw_sub =
  delp_sub :: field3
  tau_ext_sub :: field3
  tau_sca_sub :: field3
  asm_sub :: field3

definition convert ::
  "optics \<Rightarrow> string \<Rightarrow> int \<Rightarrow> int \<Rightarrow> snapshot \<Rightarrow> error + native_fields" where
  "convert ds_optics species idx_size idx_wvl s =
     ebind (idx_rh_of (mul100 s) species (RH s)) (\<lambda>idx_rh.
     ebind (case mixing s species of None \<Rightarrow> Inl KeyError | Some q \<Rightarrow> Inr q) (\<lambda>q_species.
     ebind (gather ds_optics (ext ds_optics) idx_size idx_rh idx_wvl) (\<lambda>k_ext.
     ebind (gather ds_optics (sca ds_optics) idx_size idx_rh idx_wvl) (\<lambda>k_sca.
     ebind (gather ds_optics (asm ds_optics) idx_size idx_rh idx_wvl) (\<lambda>asm'.
     ebind (layer_tau (DELP s) q_species k_ext) (\<lambda>tau_ext.
     ebind (layer_tau (DELP s) q_species k_sca) (\<lambda>tau_sca.
     ebind (reshape3 (nlev s) (nlat s) (nlon s) (DELP s)) (\<lambda>d3.
     ebind (reshape3 (nlev s) (nlat s) (nlon s) tau_ext) (\<lambda>e3.
     ebind (reshape3 (nlev s) (nlat s) (nlon s) tau_sca) (\<lambda>s3.
     ebind (reshape3 (nlev s) (nlat s) (nlon s) asm') (\<lambda>a3.
       Inr \<lparr>da_delp = d3, da_tau_ext = e3, da_tau_sca = s3, da_asm = a3,
            da_tau_ext_column = sum_axis0 (nlat s) (nlon s) e3\<rparr>)))))))))))"

definition subsample_raw :: "nat \<Rightarrow> nat \<Rightarrow> nat \<Rightarrow> native_fields \<Rightarrow> error + raw_sub" where
  "subsample_raw nlev' nlat' nlon' n =
     ebind (subsample sum_axis0 nlev' nlat' nlon' (da_delp n)) (\<lambda>d.
     ebind (subsample sum_axis0 nlev' nlat' nlon' (da_tau_ext n)) (\<lambda>e.
     ebind (subsample sum_axis0 nlev' nlat' nlon' (da_tau_sca n)) (\<lambda>sc.
     ebind (subsample mean_axis0 nlev' nlat' nlon' (da_asm n)) (\<lambda>a.
       Inr \<lparr>delp_sub = d, tau_ext_sub = e, tau_sca_sub = sc, asm_sub = a\<rparr>))))"

definition clip_sub :: "nat \<Rightarrow> nat \<Rightarrow> raw_sub \<Rightarrow> sub_fields" where
  "clip_sub nlat' nlon' r =
     (let e = clip_ext (tau_ext_sub r) in
      \<lparr>da_delp_sub = delp_sub r, da_tau_ext_sub = e,
       da_tau_sca_sub = clip_sca (tau_sca_sub r) e,
       da_asm_sub = clip_asm (asm_sub r),
       da_tau_ext_sub_column = sum_axis0 (nlat' div 2) (nlon' div 2) e\<rparr>)"

text \<open>
  One pass of the loop over \<open>t\<close>. Line 234 stores into \<open>lat[nlat // 2]\<close>, which raises
  on a grid without latitudes.
\<close>

definition process_timestep ::
  "optics \<Rightarrow> string \<Rightarrow> int \<Rightarrow> int \<Rightarrow> snapshot \<Rightarrow> error + native_fields \<times> sub_fields" where
  "process_timestep ds_optics species idx_size idx_wvl s =
     ebind (convert ds_optics species idx_size idx_wvl s) (\<lambda>n.
     ebind (subsample_raw (nlev s) (nlat s) (nlon s) n) (\<lambda>r.
     ebind (py_index (nlat s) (int (nlat s div 2))) (\<lambda>_.
       Inr (n, clip_sub (nlat s) (nlon s) r))))"




section \<open>external\_mix.py: the aggregator\<close>

text \<open>
  A dataset is its variables (coordinates included), flattened, and its attributes. The
  value of \<open>input_filename\<close> is \<open>str(files)\<close>, kept as the list it prints. The file system
  is an association list from paths to datasets; the pattern matching of \<open>glob\<close> is the
  library's and is the parameter \<open>matches pattern path\<close>.
\<close>

datatype attr_value = Text string | ReprOf "string list"

record dataset =
  variables :: "string \<Rightarrow> real list option"
  attrs :: "string \<Rightarrow> attr_value option"

type_synonym filesystem = "(string \<times> dataset) list"

text \<open>The names of the four accumulated variables.\<close>

definition EXT :: string where
  "EXT = ''Extinction_Layer_Optical_Depth''"

definition SCA :: string where
  "SCA = ''Scattering_Layer_Optical_Depth''"

definition ASM :: string where
  "ASM = ''Layer_Asymmetry_Parameter''"

definition COL :: string where
  "COL = ''Extinction_Column_Optical_Depth''"

definition tau_thresh :: real where
  "tau_thresh = 1 / 100000"

definition version :: string where
  "version = ''v0.2''"

definition SPECIES_ALIAS :: "string \<Rightarrow> string option" where
  "SPECIES_ALIAS = map_of
     [(''SU'', ''SO4''), (''OCPHO'', ''OCPHOBIC''), (''OCPHI'', ''OCPHILIC''),
      (''BCPHO'', ''BCPHOBIC''), (''BCPHI'', ''BCPHILIC''), (''NI'', ''NO3AN1'')]"

definition glob :: "(string \<Rightarrow> string \<Rightarrow> bool) \<Rightarrow> filesystem \<Rightarrow> string \<Rightarrow> string list" where
  "glob matches fs pattern = filter (matches pattern) (map fst fs)"

definition open_dataset :: "filesystem \<Rightarrow> string \<Rightarrow> error + dataset" where
  "open_dataset fs path = (case map_of fs path of None \<Rightarrow> Inl FileNotFoundError | Some d \<Rightarrow> Inr d)"

definition to_netcdf :: "string \<Rightarrow> dataset \<Rightarrow> filesystem \<Rightarrow> filesystem" where
  "to_netcdf path d fs = (path, d) # filter (\<lambda>e. fst e \<noteq> path) fs"

definition path_join :: "string \<Rightarrow> string \<Rightarrow> string" where
  "path_join a b = (if a = [] \<or> last a = CHR ''/'' then a @ b else a @ ''/'' @ b)"

text \<open>Lines 47 to 65: the files of one (pattern, timestamp) unit.\<close>

definition not_total :: "string \<Rightarrow> bool" where
  "not_total m = (\<not> contains ''_AER_'' m)"

definition species_pattern :: "string \<Rightarrow> string \<Rightarrow> string" where
  "species_pattern pattern species =
     (let species_actual = (case SPECIES_ALIAS species of None \<Rightarrow> species | Some a \<Rightarrow> a)
      in replace ''*_'' (species_actual @ ''_'') pattern)"

definition legacy_pattern :: "string \<Rightarrow> string" where
  "legacy_pattern sp = replace ''GEOSIT/'' ''GEOSIT_alpha_4/'' sp"

definition matched_in :: "(string \<Rightarrow> string \<Rightarrow> bool) \<Rightarrow> filesystem \<Rightarrow> string \<Rightarrow> string list" where
  "matched_in matches fs pat = filter not_total (sort (glob matches fs pat))"

definition resolve_species_files ::
  "(string \<Rightarrow> string \<Rightarrow> bool) \<Rightarrow> filesystem \<Rightarrow> string \<Rightarrow> string \<Rightarrow> string list" where
  "resolve_species_files matches fs pattern species =
     (let matched = matched_in matches fs (species_pattern pattern species)
      in if matched = []
         then matched_in matches fs (legacy_pattern (species_pattern pattern species))
         else matched)"

definition resolve_files ::
  "(string \<Rightarrow> string \<Rightarrow> bool) \<Rightarrow> filesystem \<Rightarrow> string \<Rightarrow> string list \<Rightarrow> string list" where
  "resolve_files matches fs pattern species_list =
     concat (map (resolve_species_files matches fs pattern) species_list)"

text \<open>
  Reading and updating in place one variable. The fields of all contributing files are
  taken to live on one grid: an elementwise operation on arrays of different sizes is
  reported as \<open>ValueError\<close>, without numpy's repetition of axes of length 1.
\<close>

definition getvar :: "dataset \<Rightarrow> string \<Rightarrow> error + real list" where
  "getvar d name = (case variables d name of None \<Rightarrow> Inl KeyError | Some v \<Rightarrow> Inr v)"

definition setvar :: "string \<Rightarrow> real list \<Rightarrow> dataset \<Rightarrow> dataset" where
  "setvar name v d = d\<lparr>variables := (variables d)(name \<mapsto> v)\<rparr>"

definition setattr :: "string \<Rightarrow> attr_value \<Rightarrow> dataset \<Rightarrow> dataset" where
  "setattr name v d = d\<lparr>attrs := (attrs d)(name \<mapsto> v)\<rparr>"

definition ewise :: "(real \<Rightarrow> real \<Rightarrow> real) \<Rightarrow> real list \<Rightarrow> real list \<Rightarrow> error + real list" where
  "ewise f xs ys = (if length xs = length ys then Inr (map2 f xs ys) else Inl ValueError)"

definition zero_var :: "string \<Rightarrow> dataset \<Rightarrow> error + dataset" where
  "zero_var name d = ebind (getvar d name) (\<lambda>v. Inr (setvar name (map (\<lambda>_. 0) v) d))"

definition iadd_values :: "string \<Rightarrow> real list \<Rightarrow> dataset \<Rightarrow> error + dataset" where
  "iadd_values name xs d =
     ebind (getvar d name) (\<lambda>acc. ebind (ewise (+) acc xs) (\<lambda>r. Inr (setvar name r d)))"

definition iadd_var :: "string \<Rightarrow> dataset \<Rightarrow> dataset \<Rightarrow> error + dataset" where
  "iadd_var name ds ds_out =
     ebind (getvar ds_out name) (\<lambda>acc.
     ebind (getvar ds name) (\<lambda>xs.
     ebind (ewise (+) acc xs) (\<lambda>r. Inr (setvar name r ds_out))))"

fun efoldl :: "('b \<Rightarrow> 'a \<Rightarrow> error + 'b) \<Rightarrow> 'b \<Rightarrow> 'a list \<Rightarrow> error + 'b" where
  "efoldl f acc [] = Inr acc"
| "efoldl f acc (x # xs) = ebind (f acc x) (\<lambda>acc'. efoldl f acc' xs)"

text \<open>Lines 73 to 83: the accumulator, made from the first file.\<close>

definition init_accumulator :: "string \<Rightarrow> string \<Rightarrow> string list \<Rightarrow> dataset \<Rightarrow> error + dataset" where
  "init_accumulator utc_time_str cwd files first =
     (let d1 = setattr ''input_filename'' (ReprOf files) first;
          d2 = setattr ''processing_datetime'' (Text utc_time_str) d1;
          d3 = setattr ''script_version'' (Text (path_join cwd ''external_mix.py '' @ version)) d2
      in ebind (zero_var EXT d3) (\<lambda>d4.
         ebind (zero_var SCA d4) (\<lambda>d5.
         ebind (zero_var ASM d5) (\<lambda>d6.
         zero_var COL d6))))"

text \<open>Lines 95 to 103: one contributing file.\<close>

definition accumulate :: "dataset \<Rightarrow> dataset \<Rightarrow> error + dataset" where
  "accumulate ds_out ds =
     ebind (iadd_var EXT ds ds_out) (\<lambda>o1.
     ebind (iadd_var SCA ds o1) (\<lambda>o2.
     ebind (iadd_var COL ds o2) (\<lambda>o3.
     ebind (getvar o3 ASM) (\<lambda>acc.
     ebind (getvar ds SCA) (\<lambda>sc.
     ebind (getvar ds ASM) (\<lambda>a.
     ebind (ewise (*) sc a) (\<lambda>w.
     ebind (ewise (+) acc w) (\<lambda>r.
       Inr (setvar ASM r o3)))))))))"

text \<open>
  Lines 107 to 114: the two masked assignments. A boolean mask must have the shape of the
  array it indexes.
\<close>

definition finalize :: "dataset \<Rightarrow> error + dataset" where
  "finalize d =
     ebind (getvar d SCA) (\<lambda>sc.
     ebind (getvar d ASM) (\<lambda>a.
       if length sc \<noteq> length a then Inl IndexError
       else
         (let a1 = map2 (\<lambda>s x. if s \<le> tau_thresh then 0 else x) sc a;
              a2 = map2 (\<lambda>s x. if s > tau_thresh then x / s else x) sc a1
          in Inr (setvar ASM a2 d))))"

definition aggregate ::
  "filesystem \<Rightarrow> string \<Rightarrow> string \<Rightarrow> string list \<Rightarrow> error + dataset" where
  "aggregate fs utc_time_str cwd files =
     ebind (open_dataset fs (files ! 0)) (\<lambda>first.
     ebind (init_accumulator utc_time_str cwd files first) (\<lambda>ds_out.
     ebind (efoldl (\<lambda>acc filename. ebind (open_dataset fs filename) (accumulate acc))
              ds_out files) (\<lambda>total.
       finalize total)))"

text \<open>
  \<open>process_file\<close> of external\_mix.py: the file system after the call. The clock and the
  working directory are parameters.
\<close>

definition process_file_mix ::
  "(string \<Rightarrow> string \<Rightarrow> bool) \<Rightarrow> string \<Rightarrow> string \<Rightarrow> string \<Rightarrow> string list \<Rightarrow> filesystem
     \<Rightarrow> error + filesystem" where
  "process_file_mix matches utc_time_str cwd pattern species_list fs =
     (let files = resolve_files matches fs pattern species_list in
      if length files = 0 then Inr fs
      else
        (let filename_out = replace ''*_'' ''AER_'' pattern in
         ebind (aggregate fs utc_time_str cwd files) (\<lambda>ds_out.
           Inr (to_netcdf filename_out ds_out fs))))"

text \<open>The loop over the dates of the main program: one pattern and one clock reading per date.\<close>

fun main_mix ::
  "(string \<Rightarrow> string \<Rightarrow> bool) \<Rightarrow> string \<Rightarrow> string list \<Rightarrow> (string \<times> string) list \<Rightarrow> filesystem
     \<Rightarrow> error + filesystem" where
  "main_mix matches cwd species_list [] fs = Inr fs"
| "main_mix matches cwd species_list ((utc_time_str, filename) # rest) fs =
     ebind (process_file_mix matches utc_time_str cwd filename species_list fs)
       (main_mix matches cwd species_list rest)"

section \<open>The sub-sampler as the specification words it\<close>

text \<open>
  These definitions follow the sentences of the specification, not the source; they are
  only compared with \<open>subsample\<close>. ``First average each vertically-adjacent pair of native
  levels (mid-level values)'' is \<open>spec_mid_levels\<close>; ``for each output level sum three
  consecutive mid-level values, then average the even/odd-latitude-aligned horizontal pairs
  (half weight each) to produce the 2x2 horizontal block mean'' is \<open>spec_subsample\<close>, with
  the mean of the rows \<open>2j\<close>, \<open>2j + 1\<close> and of the columns \<open>2i\<close>, \<open>2i + 1\<close> as the
  block mean.
\<close>

definition spec_mid_levels :: "field3 \<Rightarrow> field3" where
  "spec_mid_levels a = map2 (\<lambda>p q. scale_plane 0.5 (add_plane p q)) (butlast a) (tl a)"

definition spec_block_mean :: "plane \<Rightarrow> plane" where
  "spec_block_mean p =
     map (\<lambda>row. map2 (\<lambda>x y. 0.5 * (x + y)) (evens row) (odds row))
         (map2 (map2 (\<lambda>x y. 0.5 * (x + y))) (evens p) (odds p))"

definition spec_subsample :: "nat \<Rightarrow> nat \<Rightarrow> nat \<Rightarrow> field3 \<Rightarrow> field3" where
  "spec_subsample nlev' nlat' nlon' a =
     map (\<lambda>ilev. spec_block_mean
                   (sum_axis0 nlat' nlon' (take 3 (drop (3 * ilev) (spec_mid_levels a)))))
         [0..<nlev' div 3]"

section \<open>Shapes\<close>

text \<open>A plane with \<open>r\<close> rows of \<open>c\<close> entries, and a field of \<open>l\<close> such planes.\<close>

definition shape2 :: "nat \<Rightarrow> nat \<Rightarrow> 'a list list \<Rightarrow> bool" where
  "shape2 r c p \<longleftrightarrow> length p = r \<and> (\<forall>row\<in>set p. length row = c)"

definition shape3 :: "nat \<Rightarrow> nat \<Rightarrow> nat \<Rightarrow> 'a list list list \<Rightarrow> bool" where
  "shape3 l r c x \<longleftrightarrow> length x = l \<and> (\<forall>p\<in>set x. shape2 r c p)"

section \<open>Concrete inputs\<close>

definition ex_species_A :: dataset where
  "ex_species_A = \<lparr>variables = map_of [(EXT, [1/10, 1/10]), (SCA, [1/20, 1/20]), (ASM, [1/2, 1/2]),
      (COL, [1/10, 1/10]), (''DELP'', [5, 6])], attrs = map_of [(''datetime'', Text ''A'')]\<rparr>"

definition ex_species_B :: dataset where
  "ex_species_B = \<lparr>variables = map_of [(EXT, [2/10, 2/10]), (SCA, [1/10, 1/10]), (ASM, [8/10, 8/10]),
      (COL, [2/10, 2/10]), (''DELP'', [7, 8])], attrs = map_of [(''datetime'', Text ''B'')]\<rparr>"

definition ex_fs :: filesystem where
  "ex_fs = [(''A'', ex_species_A), (''B'', ex_species_B)]"


text \<open>
  A file system with two species files for the time stamp T2 and none for T1, and a
  matcher under which a pattern matches only the path equal to it.
\<close>

definition ex_matches :: "string \<Rightarrow> string \<Rightarrow> bool" where
  "ex_matches pat path = (pat = path)"

definition ex_run_fs :: filesystem where
  "ex_run_fs = [(''GEOSIT/f.SO4_SW01.T2.nc'', ex_species_A),
                (''GEOSIT/f.OCPHOBIC_SW01.T2.nc'', ex_species_B)]"

text \<open>
  A rounded product with 100: the exact product rounded to the nearest multiple of
  \<open>2 ^ -17\<close> (the spacing of the float32 numbers from 64 to 128), and left as it is where
  that would round to 0. At every humidity used below it is the float32 product; at
  9730785 / 33554432, the float32 number nearest to 0.29, it is 29 where the exact product
  is below 29, and at -13421773 / 268435456, the float32 number nearest to -0.05, it is -5
  where the exact product is below -5.
\<close>

definition ex_mul100 :: "real \<Rightarrow> real" where
  "ex_mul100 x =
     (if round (x * 100 * 131072) = 0 then x * 100
      else real_of_int (round (x * 100 * 131072)) / 131072)"

text \<open>
  An optics table of the shape \<open>rh_interp\<close> produces (100 humidity bins), with one radius
  bin and two wavelengths; the extinction coefficient is the number of the humidity bin
  and scattering exceeds extinction.
\<close>

definition ex_optics :: optics where
  "ex_optics = \<lparr>n_size = 1, n_rh = 100, n_wvl = 2,
     ext = (\<lambda>r h w. real h), sca = (\<lambda>r h w. 2 * real h), asm = (\<lambda>r h w. 3),
     lambda = [5 / 10000000, 1 / 1000000]\<rparr>"

text \<open>
  A time step on a grid of 3 levels, 3 latitudes and 2 longitudes with relative humidity
  0.5, pressure thickness 9.8 and mixing ratio 0.01 of \<open>SO4\<close> in every cell.
\<close>

definition ex_snapshot :: snapshot where
  "ex_snapshot = \<lparr>nlev = 3, nlat = 3, nlon = 2,
     RH = replicate 18 (1 / 2), DELP = replicate 18 (98 / 10),
     mixing = [''SO4'' \<mapsto> replicate 18 (1 / 100)], mul100 = ex_mul100\<rparr>"




definition ex_timestep_result :: "native_fields \<times> sub_fields" where
  "ex_timestep_result =
     (\<lparr>da_delp = replicate 3 (replicate 3 (replicate 2 (98 / 10))),
       da_tau_ext = replicate 3 (replicate 3 (replicate 2 (1 / 2))),
       da_tau_sca = replicate 3 (replicate 3 (replicate 2 1)),
       da_asm = replicate 3 (replicate 3 (replicate 2 3)),
       da_tau_ext_column = replicate 3 (replicate 2 (3 / 2))\<rparr>,
      \<lparr>da_delp_sub = [[[294 / 10]]], da_tau_ext_sub = [[[3 / 2]]],
       da_tau_sca_sub = [[[3 / 2]]], da_asm_sub = [[[1]]],
       da_tau_ext_sub_column = [[3 / 2]]\<rparr>)"

text \<open>
  A native grid of 6 levels, 4 latitudes and 4 longitudes whose extinction is the index of
  the level in every cell.
\<close>

definition ex_level_field :: field3 where
  "ex_level_field = map (\<lambda>l. replicate 4 (replicate 4 (real l))) [0..<6]"

text \<open>
  A grid of 4 levels, 3 latitudes and 2 longitudes whose value is the index of the level in
  every cell, and a grid of 3 levels, 3 latitudes and 2 longitudes whose value is the flat
  position of the cell.
\<close>

definition ex_four_levels :: field3 where
  "ex_four_levels = map (\<lambda>l. replicate 3 (replicate 2 (real l))) [0..<4]"

definition ex_position_field :: field3 where
  "ex_position_field =
     [[[0, 1], [2, 3], [4, 5]], [[6, 7], [8, 9], [10, 11]], [[12, 13], [14, 15], [16, 17]]]"

text \<open>A grid of 4 levels, 3 latitudes and 2 longitudes whose value is the index of the longitude.\<close>

definition ex_lon_field :: field3 where
  "ex_lon_field = replicate 4 (replicate 3 [0, 1])"

lemma ebind_Inr_iff: "ebind m f = Inr y \<longleftrightarrow> (\<exists>x. m = Inr x \<and> f x = Inr y)"
  by (cases m) (simp_all add: ebind_def)

lemma ebind_Inr [simp]: "ebind (Inr x) f = f x"
  by (simp add: ebind_def)

lemma ebind_Inl [simp]: "ebind (Inl e) f = Inl e"
  by (simp add: ebind_def)

lemma getvar_Inr_iff: "getvar d n = Inr v \<longleftrightarrow> variables d n = Some v"
  by (simp add: getvar_def split: option.splits)

lemma variables_setvar: "variables (setvar n v d) = (variables d)(n \<mapsto> v)"
  by (simp add: setvar_def)

lemma attrs_setvar: "attrs (setvar n v d) = attrs d"
  by (simp add: setvar_def)

lemma ewise_Inr_iff: "ewise f xs ys = Inr r \<longleftrightarrow> length xs = length ys \<and> r = map2 f xs ys"
  by (auto simp: ewise_def)

lemma iadd_var_Inr:
  assumes "iadd_var n ds o1 = Inr o2"
  shows "\<exists>acc xs. variables o1 n = Some acc \<and> variables ds n = Some xs \<and> length acc = length xs
           \<and> o2 = setvar n (map2 (+) acc xs) o1"
  using assms by (auto simp: iadd_var_def ebind_Inr_iff getvar_Inr_iff ewise_Inr_iff)


lemma names_distinct:
  "EXT \<noteq> SCA" "EXT \<noteq> ASM" "EXT \<noteq> COL" "SCA \<noteq> ASM" "SCA \<noteq> COL" "ASM \<noteq> COL"
  "SCA \<noteq> EXT" "ASM \<noteq> EXT" "COL \<noteq> EXT" "ASM \<noteq> SCA" "COL \<noteq> SCA" "COL \<noteq> ASM"
  by (simp_all add: EXT_def SCA_def ASM_def COL_def)

lemma accumulate_Inr:
  assumes "accumulate o1 ds = Inr o2"
  shows "\<exists>e s a e' s' a'.
           variables o1 EXT = Some e \<and> variables o1 SCA = Some s \<and> variables o1 ASM = Some a
         \<and> variables ds EXT = Some e' \<and> variables ds SCA = Some s' \<and> variables ds ASM = Some a'
         \<and> length e = length e' \<and> length s = length s' \<and> length s' = length a' \<and> length a = length s'
         \<and> variables o2 EXT = Some (map2 (+) e e')
         \<and> variables o2 SCA = Some (map2 (+) s s')
         \<and> variables o2 ASM = Some (map2 (+) a (map2 (*) s' a'))
         \<and> attrs o2 = attrs o1
         \<and> (\<forall>v. v \<notin> {EXT, SCA, ASM, COL} \<longrightarrow> variables o2 v = variables o1 v)"
  using assms
  apply (simp add: accumulate_def ebind_Inr_iff getvar_Inr_iff ewise_Inr_iff)
  apply (elim exE conjE)
  apply (drule iadd_var_Inr)+
  apply (elim exE conjE)
  apply (auto simp: variables_setvar attrs_setvar names_distinct)
  done

lemma efoldl_accumulate:
  assumes "efoldl (\<lambda>acc filename. ebind (open_dataset fs filename) (accumulate acc)) o1 files = Inr o2"
    and "variables o1 EXT = Some e0" "variables o1 SCA = Some s0" "variables o1 ASM = Some a0"
  shows "\<exists>contribs e s a.
      list_all2 (\<lambda>f (e', s', a'). \<exists>d. open_dataset fs f = Inr d \<and> variables d EXT = Some e'
                    \<and> variables d SCA = Some s' \<and> variables d ASM = Some a'
                    \<and> length e' = length e0 \<and> length s' = length s0 \<and> length a' = length s0) files contribs
    \<and> variables o2 EXT = Some e \<and> variables o2 SCA = Some s \<and> variables o2 ASM = Some a
    \<and> length e = length e0 \<and> length s = length s0 \<and> length a = length a0
    \<and> (files \<noteq> [] \<longrightarrow> length a0 = length s0)
    \<and> (\<forall>i<length e0. e ! i = e0 ! i + (\<Sum>(e', s', a')\<leftarrow>contribs. e' ! i))
    \<and> (\<forall>i<length s0. s ! i = s0 ! i + (\<Sum>(e', s', a')\<leftarrow>contribs. s' ! i))
    \<and> (\<forall>i<length a0. a ! i = a0 ! i + (\<Sum>(e', s', a')\<leftarrow>contribs. s' ! i * a' ! i))
    \<and> attrs o2 = attrs o1
    \<and> (\<forall>v. v \<notin> {EXT, SCA, ASM, COL} \<longrightarrow> variables o2 v = variables o1 v)"
  using assms
proof (induction files arbitrary: o1 e0 s0 a0)
  case Nil
  then show ?case by (intro exI[of _ "[]"] exI[of _ e0] exI[of _ s0] exI[of _ a0]) simp
next
  case (Cons f files)
  from Cons.prems(1) obtain d o' where d: "open_dataset fs f = Inr d"
    and acc: "accumulate o1 d = Inr o'"
    and rest: "efoldl (\<lambda>acc filename. ebind (open_dataset fs filename) (accumulate acc)) o' files = Inr o2"
    by (auto simp: ebind_Inr_iff)
  from accumulate_Inr[OF acc] Cons.prems(2-4) obtain e' s' a' where
    ds: "variables d EXT = Some e'" "variables d SCA = Some s'" "variables d ASM = Some a'"
    and len: "length e0 = length e'" "length s0 = length s'" "length s' = length a'" "length a0 = length s'"
    and o': "variables o' EXT = Some (map2 (+) e0 e')" "variables o' SCA = Some (map2 (+) s0 s')"
       "variables o' ASM = Some (map2 (+) a0 (map2 (*) s' a'))"
    and fr: "attrs o' = attrs o1" "\<forall>v. v \<notin> {EXT, SCA, ASM, COL} \<longrightarrow> variables o' v = variables o1 v"
    by auto
  from Cons.IH[OF rest o'] obtain contribs e s a where
    IH: "list_all2 (\<lambda>f (e'', s'', a''). \<exists>d. open_dataset fs f = Inr d \<and> variables d EXT = Some e''
                    \<and> variables d SCA = Some s'' \<and> variables d ASM = Some a''
                    \<and> length e'' = length (map2 (+) e0 e') \<and> length s'' = length (map2 (+) s0 s')
                    \<and> length a'' = length (map2 (+) s0 s')) files contribs"
     "variables o2 EXT = Some e" "variables o2 SCA = Some s" "variables o2 ASM = Some a"
     "length e = length (map2 (+) e0 e')" "length s = length (map2 (+) s0 s')"
     "length a = length (map2 (+) a0 (map2 (*) s' a'))"
     "\<forall>i<length (map2 (+) e0 e'). e ! i = map2 (+) e0 e' ! i + (\<Sum>(e', s', a')\<leftarrow>contribs. e' ! i)"
     "\<forall>i<length (map2 (+) s0 s'). s ! i = map2 (+) s0 s' ! i + (\<Sum>(e', s', a')\<leftarrow>contribs. s' ! i)"
     "\<forall>i<length (map2 (+) a0 (map2 (*) s' a')). a ! i = map2 (+) a0 (map2 (*) s' a') ! i + (\<Sum>(e', s', a')\<leftarrow>contribs. s' ! i * a' ! i)"
     "attrs o2 = attrs o'" "\<forall>v. v \<notin> {EXT, SCA, ASM, COL} \<longrightarrow> variables o2 v = variables o' v"
    by (elim exE conjE) (rule that; assumption)
  have l2: "list_all2 (\<lambda>f (e', s', a'). \<exists>d. open_dataset fs f = Inr d \<and> variables d EXT = Some e'
                    \<and> variables d SCA = Some s' \<and> variables d ASM = Some a'
                    \<and> length e' = length e0 \<and> length s' = length s0 \<and> length a' = length s0)
            (f # files) ((e', s', a') # contribs)"
    using IH(1) d ds len by (simp add: list_all2_Cons1)
  have le: "length e = length e0" "length s = length s0" "length a = length a0"
    using IH(5-7) len by simp_all
  have se: "\<forall>i<length e0. e ! i = e0 ! i + (\<Sum>(e', s', a')\<leftarrow>(e', s', a') # contribs. e' ! i)"
    using IH(8) len by simp
  have ss: "\<forall>i<length s0. s ! i = s0 ! i + (\<Sum>(e', s', a')\<leftarrow>(e', s', a') # contribs. s' ! i)"
    using IH(9) len by simp
  have sa: "\<forall>i<length a0. a ! i = a0 ! i + (\<Sum>(e', s', a')\<leftarrow>(e', s', a') # contribs. s' ! i * a' ! i)"
    using IH(10) len by simp
  have fr2: "attrs o2 = attrs o1" "\<forall>v. v \<notin> {EXT, SCA, ASM, COL} \<longrightarrow> variables o2 v = variables o1 v"
    using IH(11,12) fr by simp_all
  show ?case
    apply (rule exI[of _ "(e', s', a') # contribs"], rule exI[of _ e], rule exI[of _ s], rule exI[of _ a])
    apply (intro conjI)
    apply (rule l2) apply (rule IH(2)) apply (rule IH(3)) apply (rule IH(4))
    apply (rule le(1)) apply (rule le(2)) apply (rule le(3))
    apply (simp add: len) apply (rule se) apply (rule ss) apply (rule sa)
    apply (rule fr2(1)) apply (rule fr2(2)) done
qed

lemma zero_var_Inr:
  assumes "zero_var n d = Inr d'"
  shows "\<exists>v. variables d n = Some v \<and> d' = setvar n (map (\<lambda>_. 0) v) d"
  using assms by (auto simp: zero_var_def ebind_Inr_iff getvar_Inr_iff)

lemma attrs_setattr: "attrs (setattr n v d) = (attrs d)(n \<mapsto> v)"
  by (simp add: setattr_def)

lemma variables_setattr: "variables (setattr n v d) = variables d"
  by (simp add: setattr_def)

lemma init_accumulator_Inr:
  assumes "init_accumulator utc cwd files first = Inr d"
  shows "\<exists>e s a. variables first EXT = Some e \<and> variables first SCA = Some s \<and> variables first ASM = Some a
       \<and> variables d EXT = Some (map (\<lambda>_. 0) e) \<and> variables d SCA = Some (map (\<lambda>_. 0) s)
       \<and> variables d ASM = Some (map (\<lambda>_. 0) a)
       \<and> (\<forall>v. v \<notin> {EXT, SCA, ASM, COL} \<longrightarrow> variables d v = variables first v)
       \<and> (\<forall>k. k \<notin> {''input_filename'', ''processing_datetime'', ''script_version''}
              \<longrightarrow> attrs d k = attrs first k)"
  using assms
  apply (simp add: init_accumulator_def ebind_Inr_iff Let_def)
  apply (elim exE conjE)
  apply (drule zero_var_Inr)+
  apply (elim exE conjE)
  apply (auto simp: variables_setvar attrs_setvar variables_setattr attrs_setattr names_distinct)
  done

lemma finalize_Inr:
  assumes "finalize t = Inr out"
  shows "\<exists>sc a. variables t SCA = Some sc \<and> variables t ASM = Some a \<and> length sc = length a
      \<and> variables out = (variables t)(ASM \<mapsto> map2 (\<lambda>s x. if s \<le> tau_thresh then 0 else x / s) sc a)
      \<and> attrs out = attrs t"
proof -
  have eq: "map2 (\<lambda>s x. if s > tau_thresh then x / s else x) sc (map2 (\<lambda>s x. if s \<le> tau_thresh then 0 else x) sc a)
       = map2 (\<lambda>s x. if s \<le> tau_thresh then 0 else x / s) sc a" if "length sc = length a" for sc a :: "real list"
    using that by (induction sc a rule: list_induct2) auto
  show ?thesis
    using assms
    by (auto simp: finalize_def ebind_Inr_iff getvar_Inr_iff Let_def eq variables_setvar attrs_setvar
        split: if_splits)
qed

text \<open>
  Claim C3. When the aggregator returns a dataset for a non-empty file list, every listed
  file was opened and contributed its extinction, scattering and asymmetry arrays, all of
  the size of the result. In every cell the aggregate extinction and scattering are the
  sums of the contributions, and the aggregate asymmetry is exactly 0 where the summed
  scattering is at most 1e-5 and otherwise the sum of \<open>scattering_i * asymmetry_i\<close>
  divided by the summed scattering.
\<close>

theorem aggregate_asymmetry:
  assumes "files \<noteq> []" and "aggregate fs utc cwd files = Inr out"
  shows "\<exists>contribs e s a.
      list_all2 (\<lambda>f (e', s', a'). \<exists>d. open_dataset fs f = Inr d \<and> getvar d EXT = Inr e'
                    \<and> getvar d SCA = Inr s' \<and> getvar d ASM = Inr a'
                    \<and> length e' = length e \<and> length s' = length s \<and> length a' = length s) files contribs
    \<and> getvar out EXT = Inr e \<and> getvar out SCA = Inr s \<and> getvar out ASM = Inr a
    \<and> length a = length s
    \<and> (\<forall>i<length e. e ! i = (\<Sum>(e', s', a')\<leftarrow>contribs. e' ! i))
    \<and> (\<forall>i<length s. s ! i = (\<Sum>(e', s', a')\<leftarrow>contribs. s' ! i)
          \<and> a ! i = (if s ! i \<le> 1 / 100000 then 0
                     else (\<Sum>(e', s', a')\<leftarrow>contribs. s' ! i * a' ! i) / s ! i))"
proof -
  from assms(2) obtain first d0 total where
    first: "open_dataset fs (files ! 0) = Inr first"
    and init: "init_accumulator utc cwd files first = Inr d0"
    and fold: "efoldl (\<lambda>acc filename. ebind (open_dataset fs filename) (accumulate acc)) d0 files = Inr total"
    and fin: "finalize total = Inr out"
    by (auto simp: aggregate_def ebind_Inr_iff)
  from init_accumulator_Inr[OF init] obtain e1 s1 a1 :: "real list" where
    d0: "variables d0 EXT = Some (map (\<lambda>_. 0) e1)" "variables d0 SCA = Some (map (\<lambda>_. 0) s1)"
        "variables d0 ASM = Some (map (\<lambda>_. 0) a1)"
    by (elim exE conjE) (rule that; assumption)
  from efoldl_accumulate[OF fold d0] obtain contribs e s a where
    c: "list_all2 (\<lambda>f (e', s', a'). \<exists>d. open_dataset fs f = Inr d \<and> variables d EXT = Some e'
                    \<and> variables d SCA = Some s' \<and> variables d ASM = Some a'
                    \<and> length e' = length (map (\<lambda>_. 0::real) e1) \<and> length s' = length (map (\<lambda>_. 0::real) s1)
                    \<and> length a' = length (map (\<lambda>_. 0::real) s1)) files contribs"
    and t: "variables total EXT = Some e" "variables total SCA = Some s" "variables total ASM = Some a"
    and len: "length e = length (map (\<lambda>_. 0::real) e1)" "length s = length (map (\<lambda>_. 0::real) s1)"
       "length a = length (map (\<lambda>_. 0::real) a1)"
       "files \<noteq> [] \<longrightarrow> length (map (\<lambda>_. 0::real) a1) = length (map (\<lambda>_. 0::real) s1)"
    and se: "\<forall>i<length (map (\<lambda>_. 0::real) e1). e ! i = map (\<lambda>_. 0) e1 ! i + (\<Sum>(e', s', a')\<leftarrow>contribs. e' ! i)"
    and ss: "\<forall>i<length (map (\<lambda>_. 0::real) s1). s ! i = map (\<lambda>_. 0) s1 ! i + (\<Sum>(e', s', a')\<leftarrow>contribs. s' ! i)"
    and sa: "\<forall>i<length (map (\<lambda>_. 0::real) a1). a ! i = map (\<lambda>_. 0) a1 ! i + (\<Sum>(e', s', a')\<leftarrow>contribs. s' ! i * a' ! i)"
    by (elim exE conjE) (rule that; assumption)
  from finalize_Inr[OF fin] t have
    out: "variables out = (variables total)(ASM \<mapsto> map2 (\<lambda>s x. if s \<le> tau_thresh then 0 else x / s) s a)"
    and la: "length s = length a"
    by auto
  let ?a = "map2 (\<lambda>s x. if s \<le> tau_thresh then 0 else x / s) s a"
  have c': "list_all2 (\<lambda>f (e', s', a'). \<exists>d. open_dataset fs f = Inr d \<and> getvar d EXT = Inr e'
                    \<and> getvar d SCA = Inr s' \<and> getvar d ASM = Inr a'
                    \<and> length e' = length e \<and> length s' = length s \<and> length a' = length s) files contribs"
    using c len by (auto simp: getvar_Inr_iff elim!: list_all2_mono)
  have g: "getvar out EXT = Inr e" "getvar out SCA = Inr s" "getvar out ASM = Inr ?a"
    using out t by (simp_all add: getvar_Inr_iff names_distinct)
  have l: "length ?a = length s" using la by simp
  have pe: "\<forall>i<length e. e ! i = (\<Sum>(e', s', a')\<leftarrow>contribs. e' ! i)"
    using se len by simp
  have ps: "\<forall>i<length s. s ! i = (\<Sum>(e', s', a')\<leftarrow>contribs. s' ! i)
          \<and> ?a ! i = (if s ! i \<le> 1 / 100000 then 0
                     else (\<Sum>(e', s', a')\<leftarrow>contribs. s' ! i * a' ! i) / s ! i)"
    using ss sa len la by (simp add: tau_thresh_def)
  show ?thesis
    apply (rule exI[of _ contribs], rule exI[of _ e], rule exI[of _ s], rule exI[of _ ?a])
    apply (intro conjI)
    apply (rule c') apply (rule g(1)) apply (rule g(2)) apply (rule g(3)) apply (rule l)
    apply (rule pe) apply (rule ps) done
qed

lemma ex_eval:
  "\<exists>out. aggregate ex_fs utc cwd [''A'', ''B''] = Inr out
     \<and> getvar out EXT = Inr [3/10, 3/10] \<and> getvar out SCA = Inr [3/20, 3/20]
     \<and> getvar out ASM = Inr [7/10, 7/10]"
  by (simp add: aggregate_def open_dataset_def ex_fs_def init_accumulator_def zero_var_def getvar_def
      setvar_def setattr_def ex_species_A_def ex_species_B_def names_distinct accumulate_def
      iadd_var_def ewise_def finalize_def tau_thresh_def Let_def)

text \<open>
  Scenario B of the specification: two species contributing (0.1, 0.05, 0.5) and
  (0.2, 0.1, 0.8) in every cell give (0.3, 0.15, 0.7).
\<close>

theorem aggregate_asymmetry_witness:
  "\<exists>out. aggregate ex_fs [] [] [''A'', ''B''] = Inr out
     \<and> getvar out EXT = Inr [3/10, 3/10] \<and> getvar out SCA = Inr [3/20, 3/20]
     \<and> getvar out ASM = Inr [7/10, 7/10]
     \<and> (\<exists>contribs e s a.
      list_all2 (\<lambda>f (e', s', a'). \<exists>d. open_dataset ex_fs f = Inr d \<and> getvar d EXT = Inr e'
                    \<and> getvar d SCA = Inr s' \<and> getvar d ASM = Inr a'
                    \<and> length e' = length e \<and> length s' = length s \<and> length a' = length s)
          [''A'', ''B''] contribs
    \<and> getvar out EXT = Inr e \<and> getvar out SCA = Inr s \<and> getvar out ASM = Inr a
    \<and> length a = length s
    \<and> (\<forall>i<length e. e ! i = (\<Sum>(e', s', a')\<leftarrow>contribs. e' ! i))
    \<and> (\<forall>i<length s. s ! i = (\<Sum>(e', s', a')\<leftarrow>contribs. s' ! i)
          \<and> a ! i = (if s ! i \<le> 1 / 100000 then 0
                     else (\<Sum>(e', s', a')\<leftarrow>contribs. s' ! i * a' ! i) / s ! i)))"
proof -
  from ex_eval[of "[]" "[]"] obtain out where
    o: "aggregate ex_fs [] [] [''A'', ''B''] = Inr out"
    and v: "getvar out EXT = Inr [3/10, 3/10]" "getvar out SCA = Inr [3/20, 3/20]"
       "getvar out ASM = Inr [7/10, 7/10]"
    by (elim exE conjE) (rule that; assumption)
  have ne: "[''A'', ''B''] \<noteq> []" by simp
  note c = aggregate_asymmetry[OF ne o]
  show ?thesis
    apply (rule exI[of _ out])
    apply (intro conjI)
    apply (rule o) apply (rule v(1)) apply (rule v(2)) apply (rule v(3)) apply (rule c) done
qed

lemma ex_resolve_T2:
  "resolve_files ex_matches ex_run_fs ''GEOSIT/f.*_SW01.T2.nc'' [''SU'', ''OCPHO'']
     = [''GEOSIT/f.SO4_SW01.T2.nc'', ''GEOSIT/f.OCPHOBIC_SW01.T2.nc'']"
  by (simp add: resolve_files_def resolve_species_files_def matched_in_def species_pattern_def
      legacy_pattern_def SPECIES_ALIAS_def glob_def ex_matches_def ex_run_fs_def not_total_def)

lemma ex_resolve_T1:
  "matched_in ex_matches ex_run_fs (species_pattern ''GEOSIT/f.*_SW01.T1.nc'' ''SU'') = []"
  "matched_in ex_matches ex_run_fs (legacy_pattern (species_pattern ''GEOSIT/f.*_SW01.T1.nc'' ''SU'')) = []"
  "matched_in ex_matches ex_run_fs (species_pattern ''GEOSIT/f.*_SW01.T1.nc'' ''OCPHO'') = []"
  "matched_in ex_matches ex_run_fs (legacy_pattern (species_pattern ''GEOSIT/f.*_SW01.T1.nc'' ''OCPHO'')) = []"
  by (simp_all add: matched_in_def species_pattern_def
      legacy_pattern_def SPECIES_ALIAS_def glob_def ex_matches_def ex_run_fs_def not_total_def)

lemma ex_T2_eval:
  "\<exists>fs' out. process_file_mix ex_matches [] [] ''GEOSIT/f.*_SW01.T2.nc'' [''SU'', ''OCPHO''] ex_run_fs = Inr fs'
     \<and> open_dataset fs' ''GEOSIT/f.AER_SW01.T2.nc'' = Inr out
     \<and> variables out ''DELP'' = Some [5, 6] \<and> attrs out ''datetime'' = Some (Text ''A'')
     \<and> variables out ASM = Some [7/10, 7/10]
     \<and> attrs out ''input_filename'' = Some (ReprOf [''GEOSIT/f.SO4_SW01.T2.nc'', ''GEOSIT/f.OCPHOBIC_SW01.T2.nc''])"
  apply (simp only: process_file_mix_def ex_resolve_T2 Let_def)
  by (simp add: to_netcdf_def
      aggregate_def open_dataset_def ex_run_fs_def init_accumulator_def zero_var_def getvar_def
      setvar_def setattr_def ex_species_A_def ex_species_B_def names_distinct accumulate_def
      iadd_var_def ewise_def finalize_def tau_thresh_def Let_def EXT_def SCA_def ASM_def COL_def)

lemma aggregate_frame_aux:
  assumes "aggregate fs utc cwd files = Inr out"
  shows "\<exists>first. open_dataset fs (files ! 0) = Inr first
      \<and> (\<forall>v. v \<notin> {EXT, SCA, ASM, COL} \<longrightarrow> variables out v = variables first v)
      \<and> (\<forall>k. k \<notin> {''input_filename'', ''processing_datetime'', ''script_version''}
             \<longrightarrow> attrs out k = attrs first k)"
proof -
  from assms obtain first d0 total where
    first: "open_dataset fs (files ! 0) = Inr first"
    and init: "init_accumulator utc cwd files first = Inr d0"
    and fold: "efoldl (\<lambda>acc filename. ebind (open_dataset fs filename) (accumulate acc)) d0 files = Inr total"
    and fin: "finalize total = Inr out"
    by (auto simp: aggregate_def ebind_Inr_iff)
  from init_accumulator_Inr[OF init] obtain e1 s1 a1 :: "real list" where
    d0: "variables d0 EXT = Some (map (\<lambda>_. 0) e1)" "variables d0 SCA = Some (map (\<lambda>_. 0) s1)"
        "variables d0 ASM = Some (map (\<lambda>_. 0) a1)"
    and f0: "\<forall>v. v \<notin> {EXT, SCA, ASM, COL} \<longrightarrow> variables d0 v = variables first v"
       "\<forall>k. k \<notin> {''input_filename'', ''processing_datetime'', ''script_version''}
              \<longrightarrow> attrs d0 k = attrs first k"
    by (elim exE conjE) (rule that; assumption)
  from efoldl_accumulate[OF fold d0] have
    f1': "attrs total = attrs d0 \<and> (\<forall>v. v \<notin> {EXT, SCA, ASM, COL} \<longrightarrow> variables total v = variables d0 v)"
    by (elim exE conjE) (intro conjI; assumption)
  note f1 = f1'[THEN conjunct1] f1'[THEN conjunct2]
  from finalize_Inr[OF fin] obtain sc a where
    f2: "variables out = (variables total)(ASM \<mapsto> map2 (\<lambda>s x. if s \<le> tau_thresh then 0 else x / s) sc a)"
      "attrs out = attrs total"
    by (elim exE conjE) (rule that; assumption)
  have v: "\<forall>v. v \<notin> {EXT, SCA, ASM, COL} \<longrightarrow> variables out v = variables first v"
    using f0(1) f1(2) f2(1) by simp
  have k: "\<forall>k. k \<notin> {''input_filename'', ''processing_datetime'', ''script_version''}
             \<longrightarrow> attrs out k = attrs first k"
    using f0(2) f1(1) f2(2) by simp
  show ?thesis
    by (rule exI[of _ first]) (intro conjI first v k)
qed

lemma open_to_netcdf: "open_dataset (to_netcdf p d fs) p = Inr d"
  by (simp add: open_dataset_def to_netcdf_def)

lemma DELP_not_accumulated: "''DELP'' \<notin> {EXT, SCA, ASM, COL}"
  by (simp add: EXT_def SCA_def ASM_def COL_def)

text \<open>
  Claim C10. When the aggregator writes its output for a non-empty file list, the dataset
  written under the output name agrees with the first matched file on every variable
  other than the four accumulated fields and on every attribute other than
  \<open>input_filename\<close>, \<open>processing_datetime\<close> and \<open>script_version\<close>; in particular
  \<open>DELP\<close> is the first contributor's.
\<close>

theorem aggregate_frame:
  assumes "process_file_mix matches utc cwd pattern species_list fs = Inr fs'"
    and "resolve_files matches fs pattern species_list = files" and "files \<noteq> []"
  shows "\<exists>first out. open_dataset fs (files ! 0) = Inr first
      \<and> open_dataset fs' (replace ''*_'' ''AER_'' pattern) = Inr out
      \<and> (\<forall>v. v \<notin> {EXT, SCA, ASM, COL} \<longrightarrow> variables out v = variables first v)
      \<and> (\<forall>k. k \<notin> {''input_filename'', ''processing_datetime'', ''script_version''}
             \<longrightarrow> attrs out k = attrs first k)
      \<and> variables out ''DELP'' = variables first ''DELP''"
proof -
  from assms obtain out where
    agg: "aggregate fs utc cwd files = Inr out"
    and fs': "fs' = to_netcdf (replace ''*_'' ''AER_'' pattern) out fs"
    by (auto simp: process_file_mix_def Let_def ebind_Inr_iff)
  from aggregate_frame_aux[OF agg] obtain first where
    first: "open_dataset fs (files ! 0) = Inr first"
    and v: "\<forall>v. v \<notin> {EXT, SCA, ASM, COL} \<longrightarrow> variables out v = variables first v"
    and k: "\<forall>k. k \<notin> {''input_filename'', ''processing_datetime'', ''script_version''}
             \<longrightarrow> attrs out k = attrs first k"
    by (elim exE conjE) (rule that; assumption)
  have w: "open_dataset fs' (replace ''*_'' ''AER_'' pattern) = Inr out"
    unfolding fs' by (rule open_to_netcdf)
  have d: "variables out ''DELP'' = variables first ''DELP''"
    using v DELP_not_accumulated by blast
  show ?thesis
    by (rule exI[of _ first], rule exI[of _ out]) (intro conjI first w v k d)
qed

theorem aggregate_frame_witness:
  "\<exists>fs' first out.
     process_file_mix ex_matches [] [] ''GEOSIT/f.*_SW01.T2.nc'' [''SU'', ''OCPHO''] ex_run_fs = Inr fs'
     \<and> open_dataset ex_run_fs ''GEOSIT/f.SO4_SW01.T2.nc'' = Inr first
     \<and> open_dataset fs' ''GEOSIT/f.AER_SW01.T2.nc'' = Inr out
     \<and> (\<forall>v. v \<notin> {EXT, SCA, ASM, COL} \<longrightarrow> variables out v = variables first v)
     \<and> (\<forall>k. k \<notin> {''input_filename'', ''processing_datetime'', ''script_version''}
            \<longrightarrow> attrs out k = attrs first k)
     \<and> variables out ''DELP'' = variables first ''DELP''
     \<and> variables out ''DELP'' = Some [5, 6]
     \<and> attrs out ''datetime'' = Some (Text ''A'')"
proof -
  from ex_T2_eval obtain fs' out0 where
    p: "process_file_mix ex_matches [] [] ''GEOSIT/f.*_SW01.T2.nc'' [''SU'', ''OCPHO''] ex_run_fs = Inr fs'"
    and o0: "open_dataset fs' ''GEOSIT/f.AER_SW01.T2.nc'' = Inr out0"
    and d0: "variables out0 ''DELP'' = Some [5, 6]" "attrs out0 ''datetime'' = Some (Text ''A'')"
    by (elim exE conjE) (rule that; assumption)
  have ne: "[''GEOSIT/f.SO4_SW01.T2.nc'', ''GEOSIT/f.OCPHOBIC_SW01.T2.nc''] \<noteq> []"
    by simp
  from aggregate_frame[OF p ex_resolve_T2 ne] obtain first out where
    f: "open_dataset ex_run_fs ([''GEOSIT/f.SO4_SW01.T2.nc'', ''GEOSIT/f.OCPHOBIC_SW01.T2.nc''] ! 0) = Inr first"
    and o: "open_dataset fs' (replace ''*_'' ''AER_'' ''GEOSIT/f.*_SW01.T2.nc'') = Inr out"
    and v: "\<forall>v. v \<notin> {EXT, SCA, ASM, COL} \<longrightarrow> variables out v = variables first v"
    and k: "\<forall>k. k \<notin> {''input_filename'', ''processing_datetime'', ''script_version''}
            \<longrightarrow> attrs out k = attrs first k"
    and d: "variables out ''DELP'' = variables first ''DELP''"
    by (elim exE conjE) (rule that; assumption)
  have r: "replace ''*_'' ''AER_'' ''GEOSIT/f.*_SW01.T2.nc'' = ''GEOSIT/f.AER_SW01.T2.nc''"
    by simp
  have f': "open_dataset ex_run_fs ''GEOSIT/f.SO4_SW01.T2.nc'' = Inr first"
    using f by simp
  have o': "open_dataset fs' ''GEOSIT/f.AER_SW01.T2.nc'' = Inr out"
    using o unfolding r .
  have eq: "out0 = out"
    using o' o0 by simp
  show ?thesis
    apply (rule exI[of _ fs'], rule exI[of _ first], rule exI[of _ out])
    apply (intro conjI)
    apply (rule p) apply (rule f') apply (rule o') apply (rule v) apply (rule k) apply (rule d)
    apply (rule d0(1)[unfolded eq]) apply (rule d0(2)[unfolded eq]) done
qed

lemma resolve_files_empty:
  assumes "\<forall>species\<in>set species_list.
      matched_in matches fs (species_pattern pattern species) = []
    \<and> matched_in matches fs (legacy_pattern (species_pattern pattern species)) = []"
  shows "resolve_files matches fs pattern species_list = []"
  using assms by (induction species_list) (simp_all add: resolve_files_def resolve_species_files_def)

text \<open>
  Claim C8. When, for every requested species, neither the primary nor the legacy lookup
  matches a file, \<open>process_file\<close> returns normally and leaves the file system as it was:
  nothing is written and no dataset is opened or created. The loop over the dates goes on
  with the next date.
\<close>

theorem skip_empty_unit:
  assumes "\<forall>species\<in>set species_list.
      matched_in matches fs (species_pattern pattern species) = []
    \<and> matched_in matches fs (legacy_pattern (species_pattern pattern species)) = []"
  shows "process_file_mix matches utc cwd pattern species_list fs = Inr fs
    \<and> main_mix matches cwd species_list ((utc, pattern) # rest) fs
        = main_mix matches cwd species_list rest fs"
proof -
  have p: "process_file_mix matches utc cwd pattern species_list fs = Inr fs"
    using resolve_files_empty[OF assms] by (simp add: process_file_mix_def)
  then show ?thesis by simp
qed

theorem skip_empty_unit_witness:
  "matched_in ex_matches ex_run_fs (species_pattern ''GEOSIT/f.*_SW01.T1.nc'' ''SU'') = []
   \<and> matched_in ex_matches ex_run_fs (legacy_pattern (species_pattern ''GEOSIT/f.*_SW01.T1.nc'' ''SU'')) = []
   \<and> matched_in ex_matches ex_run_fs (species_pattern ''GEOSIT/f.*_SW01.T1.nc'' ''OCPHO'') = []
   \<and> matched_in ex_matches ex_run_fs (legacy_pattern (species_pattern ''GEOSIT/f.*_SW01.T1.nc'' ''OCPHO'')) = []
   \<and> process_file_mix ex_matches [] [] ''GEOSIT/f.*_SW01.T1.nc'' [''SU'', ''OCPHO''] ex_run_fs = Inr ex_run_fs
   \<and> main_mix ex_matches [] [''SU'', ''OCPHO'']
        [([], ''GEOSIT/f.*_SW01.T1.nc''), ([], ''GEOSIT/f.*_SW01.T2.nc'')] ex_run_fs
      = main_mix ex_matches [] [''SU'', ''OCPHO''] [([], ''GEOSIT/f.*_SW01.T2.nc'')] ex_run_fs
   \<and> (\<exists>fs' out. main_mix ex_matches [] [''SU'', ''OCPHO'']
          [([], ''GEOSIT/f.*_SW01.T1.nc''), ([], ''GEOSIT/f.*_SW01.T2.nc'')] ex_run_fs = Inr fs'
        \<and> open_dataset fs' ''GEOSIT/f.AER_SW01.T2.nc'' = Inr out)"
proof -
  have h: "\<forall>species\<in>set [''SU'', ''OCPHO''].
      matched_in ex_matches ex_run_fs (species_pattern ''GEOSIT/f.*_SW01.T1.nc'' species) = []
    \<and> matched_in ex_matches ex_run_fs (legacy_pattern (species_pattern ''GEOSIT/f.*_SW01.T1.nc'' species)) = []"
    using ex_resolve_T1 by simp
  note c = skip_empty_unit[OF h, of "[]" "[]" "[([], ''GEOSIT/f.*_SW01.T2.nc'')]"]
  from ex_T2_eval obtain fs' out where
    p: "process_file_mix ex_matches [] [] ''GEOSIT/f.*_SW01.T2.nc'' [''SU'', ''OCPHO''] ex_run_fs = Inr fs'"
    and o: "open_dataset fs' ''GEOSIT/f.AER_SW01.T2.nc'' = Inr out"
    by (elim exE conjE) (rule that; assumption)
  have run: "main_mix ex_matches [] [''SU'', ''OCPHO'']
        [([], ''GEOSIT/f.*_SW01.T1.nc''), ([], ''GEOSIT/f.*_SW01.T2.nc'')] ex_run_fs = Inr fs'"
    unfolding c[THEN conjunct2] by (simp add: p)
  have ex: "\<exists>fs' out. main_mix ex_matches [] [''SU'', ''OCPHO'']
          [([], ''GEOSIT/f.*_SW01.T1.nc''), ([], ''GEOSIT/f.*_SW01.T2.nc'')] ex_run_fs = Inr fs'
        \<and> open_dataset fs' ''GEOSIT/f.AER_SW01.T2.nc'' = Inr out"
    by (rule exI[of _ fs'], rule exI[of _ out]) (intro conjI run o)
  show ?thesis
    apply (intro conjI)
    apply (rule ex_resolve_T1(1)) apply (rule ex_resolve_T1(2))
    apply (rule ex_resolve_T1(3)) apply (rule ex_resolve_T1(4))
    apply (rule c[THEN conjunct1]) apply (rule c[THEN conjunct2]) apply (rule ex) done
qed

section \<open>Humidity bins and the gather\<close>

lemma emap_Inr_iff: "emap f xs = Inr ys \<longleftrightarrow> list_all2 (\<lambda>x y. f x = Inr y) xs ys"
proof (induction xs arbitrary: ys)
  case Nil
  then show ?case by auto
next
  case (Cons x xs)
  then show ?case by (cases ys) (auto simp: ebind_Inr_iff)
qed

lemma emap_total: "(\<And>x. x \<in> set xs \<Longrightarrow> f x = Inr (g x)) \<Longrightarrow> emap f xs = Inr (map g xs)"
  by (induction xs) simp_all

lemma emap_fails:
  assumes "x \<in> set xs" and "f x = Inl e" and "\<And>y e'. y \<in> set xs \<Longrightarrow> f y = Inl e' \<Longrightarrow> e' = e"
  shows "emap f xs = Inl e"
  using assms
proof (induction xs)
  case Nil
  then show ?case by simp
next
  case (Cons a xs)
  show ?case
  proof (cases "f a")
    case (Inl e')
    with Cons.prems(3)[of a e'] show ?thesis by simp
  next
    case (Inr b)
    with Cons.prems have "x \<in> set xs" by auto
    have "emap f xs = Inl e"
    proof (rule Cons.IH[OF \<open>x \<in> set xs\<close> Cons.prems(2)])
      fix y e' assume "y \<in> set xs" "f y = Inl e'"
      then show "e' = e" using Cons.prems(3)[of y e'] by simp
    qed
    with Inr show ?thesis by simp
  qed
qed

lemma rh_interp_bins: "n_rh (rh_interp interp rh_coarse ds_coarse) = 100"
  by (simp add: rh_interp_def rh_fine_def Let_def)

lemma humidity_bin_in_range:
  assumes "- (2 ^ 31) \<le> \<lfloor>m rh\<rfloor>" and "\<lfloor>m rh\<rfloor> < 2 ^ 31"
  shows "humidity_bin m rh = Inr (min \<lfloor>m rh\<rfloor> 99)"
  using assms by (simp add: humidity_bin_def to_int32_def min_def)

lemma py_index_cases:
  "py_index n i = (if - int n \<le> i \<and> i < int n then Inr (if 0 \<le> i then nat i else nat (int n + i))
                   else Inl IndexError)"
  by (auto simp: py_index_def)

lemma py_index_error: "py_index n i = Inl e \<Longrightarrow> e = IndexError"
  by (auto simp: py_index_def split: if_splits)

lemma idx_rh_of_in_range:
  assumes "\<not> contains ''PHO'' species"
    and "\<forall>x\<in>set rh. - (2 ^ 31) \<le> \<lfloor>m x\<rfloor> \<and> \<lfloor>m x\<rfloor> < 2 ^ 31"
  shows "idx_rh_of m species rh = Inr (map (\<lambda>x. min \<lfloor>m x\<rfloor> 99) rh)"
proof -
  have "emap (humidity_bin m) rh = Inr (map (\<lambda>x. min \<lfloor>m x\<rfloor> 99) rh)"
    using assms(2) by (intro emap_total humidity_bin_in_range) auto
  with assms(1) show ?thesis
    by (simp add: idx_rh_of_def)
qed

lemma rounded_product_sign:
  assumes "rounded_product m"
  shows "0 \<le> x \<longleftrightarrow> 0 \<le> \<lfloor>m x\<rfloor>"
proof (cases "0 \<le> x")
  case True
  have "m 0 = 0" and "m 0 \<le> m x"
    using assms True unfolding rounded_product_def by blast+
  then have "0 \<le> m x" by simp
  with True show ?thesis by simp
next
  case False
  then have "x < 0" by simp
  then have "m x < 0" using assms unfolding rounded_product_def by blast
  then have "\<lfloor>m x\<rfloor> < 0" by (simp add: floor_less_iff)
  with False show ?thesis by simp
qed

lemma rounded_product_from_end:
  assumes "rounded_product m" and "- 1 \<le> x"
  shows "- 100 \<le> \<lfloor>m x\<rfloor>"
proof -
  have "m (- 1) = - 100" and "m (- 1) \<le> m x"
    using assms unfolding rounded_product_def by blast+
  then have "- 100 \<le> m x" by simp
  then show ?thesis by (simp add: le_floor_iff)
qed

lemma round_zero_bounds:
  assumes "round (z :: real) = 0"
  shows "- 1 / 2 \<le> z" and "z < 1 / 2"
  using assms by (simp_all add: round_def floor_eq_iff)

lemma ex_mul100_mono:
  assumes "x \<le> y"
  shows "ex_mul100 x \<le> ex_mul100 y"
proof -
  have le: "x * 100 * 131072 \<le> y * 100 * 131072" using assms by simp
  then have r: "round (x * 100 * 131072) \<le> round (y * 100 * 131072)" by (rule round_mono)
  consider "round (x * 100 * 131072) = 0" "round (y * 100 * 131072) = 0"
    | "round (x * 100 * 131072) = 0" "round (y * 100 * 131072) \<noteq> 0"
    | "round (x * 100 * 131072) \<noteq> 0" "round (y * 100 * 131072) = 0"
    | "round (x * 100 * 131072) \<noteq> 0" "round (y * 100 * 131072) \<noteq> 0"
    by blast
  then show ?thesis
  proof cases
    case 1
    then show ?thesis using assms by (simp add: ex_mul100_def)
  next
    case 2
    then have "1 \<le> round (y * 100 * 131072)" using r by simp
    then have "1 \<le> real_of_int (round (y * 100 * 131072))" by simp
    moreover have "x * 100 * 131072 < 1 / 2" using 2(1) by (rule round_zero_bounds(2))
    ultimately have "x * 100 * 131072 \<le> real_of_int (round (y * 100 * 131072))" by linarith
    then have "x * 100 \<le> real_of_int (round (y * 100 * 131072)) / 131072"
      by (simp add: pos_le_divide_eq)
    then show ?thesis using 2 by (simp add: ex_mul100_def)
  next
    case 3
    then have "round (x * 100 * 131072) \<le> - 1" using r by simp
    then have "real_of_int (round (x * 100 * 131072)) \<le> - 1" by linarith
    moreover have "- 1 / 2 \<le> y * 100 * 131072" using 3(2) by (rule round_zero_bounds(1))
    ultimately have "real_of_int (round (x * 100 * 131072)) \<le> y * 100 * 131072" by linarith
    then have "real_of_int (round (x * 100 * 131072)) / 131072 \<le> y * 100"
      by (simp add: pos_divide_le_eq)
    then show ?thesis using 3 by (simp add: ex_mul100_def)
  next
    case 4
    have "real_of_int (round (x * 100 * 131072)) / 131072
        \<le> real_of_int (round (y * 100 * 131072)) / 131072"
      using r by (simp add: divide_right_mono)
    then show ?thesis using 4 by (simp add: ex_mul100_def)
  qed
qed

lemma ex_mul100_negative:
  assumes "x < 0"
  shows "ex_mul100 x < 0"
proof (cases "round (x * 100 * 131072) = 0")
  case True
  then show ?thesis using assms by (simp add: ex_mul100_def)
next
  case False
  have "x * 100 * 131072 \<le> 0" using assms by simp
  then have "round (x * 100 * 131072) \<le> round (0 :: real)" by (rule round_mono)
  then have "round (x * 100 * 131072) < 0" using False by simp
  then have "real_of_int (round (x * 100 * 131072)) / 131072 < 0"
    by (simp add: divide_neg_pos)
  then show ?thesis using False by (simp add: ex_mul100_def)
qed

lemma ex_mul100_values:
  "ex_mul100 0 = 0" "ex_mul100 (- 1) = - 100"
  "ex_mul100 (1 / 2) = 50" "ex_mul100 (- (1 / 2)) = - 50" "ex_mul100 (3 / 2) = 150"
  "ex_mul100 (- 2) = - 200"
  "ex_mul100 (9730785 / 33554432) = 29" "ex_mul100 (- (13421773 / 268435456)) = - 5"
  by code_simp+

lemma ex_mul100_rounded: "rounded_product ex_mul100"
  unfolding rounded_product_def
  using ex_mul100_mono ex_mul100_negative ex_mul100_values(1,2) by blast

text \<open>
  Claim C6, amended. For a species whose name contains \<open>PHO\<close> every cell uses bin 0,
  whatever the humidity. For any other species, and humidities for which the floor of the
  floating-point product \<open>rh * 100\<close> fits into 32 bits, the bin of a cell is that floor,
  \<open>np.floor(rh * 100)\<close>, clamped from above to 99; it is at most 99, and it is
  non-negative exactly when \<open>rh\<close> is.
\<close>

theorem humidity_bin_index:
  "(contains ''PHO'' species \<longrightarrow> idx_rh_of m species rh = Inr (replicate (length rh) 0))
   \<and> (\<not> contains ''PHO'' species \<and> (\<forall>x\<in>set rh. - (2 ^ 31) \<le> \<lfloor>m x\<rfloor> \<and> \<lfloor>m x\<rfloor> < 2 ^ 31) \<longrightarrow>
        idx_rh_of m species rh = Inr (map (\<lambda>x. min \<lfloor>m x\<rfloor> 99) rh)
        \<and> (\<forall>x\<in>set rh. min \<lfloor>m x\<rfloor> 99 \<le> 99
              \<and> (rounded_product m \<longrightarrow> (0 \<le> x \<longleftrightarrow> 0 \<le> min \<lfloor>m x\<rfloor> 99))))"
proof (intro conjI impI)
  assume "contains ''PHO'' species"
  then show "idx_rh_of m species rh = Inr (replicate (length rh) 0)"
    by (simp add: idx_rh_of_def)
next
  assume a: "\<not> contains ''PHO'' species \<and> (\<forall>x\<in>set rh. - (2 ^ 31) \<le> \<lfloor>m x\<rfloor> \<and> \<lfloor>m x\<rfloor> < 2 ^ 31)"
  then show "idx_rh_of m species rh = Inr (map (\<lambda>x. min \<lfloor>m x\<rfloor> 99) rh)"
    by (intro idx_rh_of_in_range) simp_all
next
  show "\<forall>x\<in>set rh. min \<lfloor>m x\<rfloor> 99 \<le> 99
              \<and> (rounded_product m \<longrightarrow> (0 \<le> x \<longleftrightarrow> 0 \<le> min \<lfloor>m x\<rfloor> 99))"
  proof (intro ballI conjI impI)
    fix x :: real
    show "min \<lfloor>m x\<rfloor> 99 \<le> 99" by simp
    assume "rounded_product m"
    from rounded_product_sign[OF this, of x]
    show "0 \<le> x \<longleftrightarrow> 0 \<le> min \<lfloor>m x\<rfloor> 99" by (simp add: min_def)
  qed
qed

text \<open>
  Claim C6 as stated fails: a cell with relative humidity -0.5, whose product with 100 is
  exactly -50 in floating point, gets bin -50, which is not in 0..99.
\<close>

theorem humidity_bin_range_counterexample:
  "idx_rh_of ex_mul100 ''SO4'' [- 1 / 2] = Inr [- 50]
   \<and> \<not> (0 \<le> (- 50 :: int) \<and> (- 50 :: int) \<le> 99)"
  by (simp add: idx_rh_of_def humidity_bin_def to_int32_def ex_mul100_values)

text \<open>
  The last humidity of the second list is the float32 number nearest to 0.29: its bin is
  29, the floor of the rounded product, where the exact product is below 29.
\<close>

theorem humidity_bin_index_witness:
  "contains ''PHO'' ''OCPHOBIC'' \<and> idx_rh_of ex_mul100 ''OCPHOBIC'' [1 / 2, - 3] = Inr [0, 0]
   \<and> \<not> contains ''PHO'' ''SO4''
   \<and> idx_rh_of ex_mul100 ''SO4'' [1 / 2, 3 / 2, - 1 / 2, 9730785 / 33554432]
       = Inr [50, 99, - 50, 29]
   \<and> rounded_product ex_mul100
   \<and> (9730785 / 33554432 :: real) * 100 < 29"
proof -
  note t1 = humidity_bin_index[of "''OCPHOBIC''" ex_mul100 "[1 / 2, - 3]"]
  note t2 = humidity_bin_index[of "''SO4''" ex_mul100 "[1 / 2, 3 / 2, - 1 / 2, 9730785 / 33554432]"]
  have p1: "contains ''PHO'' ''OCPHOBIC''" and p2: "\<not> contains ''PHO'' ''SO4''"
    by simp_all
  have h: "\<not> contains ''PHO'' ''SO4''
      \<and> (\<forall>x\<in>set [1 / 2, 3 / 2, - 1 / 2, 9730785 / 33554432].
            - (2 ^ 31) \<le> \<lfloor>ex_mul100 x\<rfloor> \<and> \<lfloor>ex_mul100 x\<rfloor> < 2 ^ 31)"
    by (simp add: ex_mul100_values)
  have "idx_rh_of ex_mul100 ''OCPHOBIC'' [1 / 2, - 3] = Inr [0, 0]"
    using t1[THEN conjunct1, THEN mp, OF p1] by (simp add: numeral_2_eq_2)
  moreover have "idx_rh_of ex_mul100 ''SO4'' [1 / 2, 3 / 2, - 1 / 2, 9730785 / 33554432]
       = Inr [50, 99, - 50, 29]"
    using t2[THEN conjunct2, THEN mp, OF h, THEN conjunct1] by (simp add: ex_mul100_values)
  moreover have "(9730785 / 33554432 :: real) * 100 < 29" by simp
  ultimately show ?thesis
    using p1 p2 ex_mul100_rounded by blast
qed

lemma gather_all_valid:
  assumes "py_index (n_size t) idx_size = Inr r" and "py_index (n_wvl t) idx_wvl = Inr w"
    and "\<And>i. i \<in> set idx \<Longrightarrow> - int (n_rh t) \<le> i \<and> i < int (n_rh t)"
  shows "gather t coef idx_size idx idx_wvl
     = Inr (map (\<lambda>i. coef r (if 0 \<le> i then nat i else nat (int (n_rh t) + i)) w) idx)"
proof -
  have "emap (py_index (n_rh t)) idx
      = Inr (map (\<lambda>i. if 0 \<le> i then nat i else nat (int (n_rh t) + i)) idx)"
    using assms(3) by (intro emap_total) (simp add: py_index_cases)
  then show ?thesis
    using assms(1,2) by (simp add: gather_def comp_def)
qed

lemma gather_some_invalid:
  assumes "py_index (n_size t) idx_size = Inr r"
    and "i \<in> set idx" and "i < - int (n_rh t) \<or> int (n_rh t) \<le> i"
  shows "gather t coef idx_size idx idx_wvl = Inl IndexError"
proof -
  have "py_index (n_rh t) i = Inl IndexError"
    using assms(3) by (auto simp: py_index_def)
  then have "emap (py_index (n_rh t)) idx = Inl IndexError"
    using assms(2) py_index_error by (intro emap_fails[of i]) auto
  then show ?thesis
    using assms(1) by (simp add: gather_def)
qed

text \<open>
  Claim C9, amended. On a table with 100 humidity bins and valid radius and wavelength
  indices, for a species that is not hydrophobic, a floating-point product \<open>rh * 100\<close>
  that is monotone, exact at 0 and -1 and negative on negative numbers, and humidities
  for which its floor fits into 32 bits: a cell with \<open>rh \<ge> 0\<close> gets a bin in
  \<open>[0, 99]\<close>; a cell with \<open>rh < 0\<close> gets the negative index \<open>np.floor(rh * 100)\<close>,
  which is not raised to 0, and which is at least -100 when \<open>rh \<ge> -1\<close>. When every cell
  has \<open>rh \<ge> -1\<close> the gather is in bounds, a negative index \<open>i\<close> reading bin
  \<open>100 + i\<close>, counted from the end of the axis; when the product of some cell is below
  -100 its index is below -100 and the gather raises \<open>IndexError\<close>.
\<close>

theorem humidity_clamp_one_sided:
  assumes "n_rh t = 100"
    and "py_index (n_size t) idx_size = Inr r" and "py_index (n_wvl t) idx_wvl = Inr w"
    and "\<not> contains ''PHO'' species"
    and "\<forall>x\<in>set rh. - (2 ^ 31) \<le> \<lfloor>m x\<rfloor> \<and> \<lfloor>m x\<rfloor> < 2 ^ 31"
    and "rounded_product m"
  shows "\<exists>idx. idx_rh_of m species rh = Inr idx \<and> length idx = length rh
    \<and> (\<forall>c<length rh. 0 \<le> rh ! c \<longrightarrow> 0 \<le> idx ! c \<and> idx ! c \<le> 99)
    \<and> (\<forall>c<length rh. rh ! c < 0 \<longrightarrow> idx ! c = \<lfloor>m (rh ! c)\<rfloor> \<and> idx ! c < 0)
    \<and> (\<forall>c<length rh. - 1 \<le> rh ! c \<longrightarrow> - 100 \<le> idx ! c)
    \<and> ((\<forall>x\<in>set rh. - 1 \<le> x) \<longrightarrow>
          gather t coef idx_size idx idx_wvl
            = Inr (map (\<lambda>i. coef r (if 0 \<le> i then nat i else nat (100 + i)) w) idx))
    \<and> ((\<exists>x\<in>set rh. m x < - 100) \<longrightarrow> gather t coef idx_size idx idx_wvl = Inl IndexError)"
proof -
  let ?idx = "map (\<lambda>x. min \<lfloor>m x\<rfloor> 99) rh"
  have i: "idx_rh_of m species rh = Inr ?idx"
    using assms(4,5) by (rule idx_rh_of_in_range)
  have pos: "\<forall>c<length rh. 0 \<le> rh ! c \<longrightarrow> 0 \<le> ?idx ! c \<and> ?idx ! c \<le> 99"
    using rounded_product_sign[OF assms(6)] by simp
  have neg: "\<forall>c<length rh. rh ! c < 0 \<longrightarrow> ?idx ! c = \<lfloor>m (rh ! c)\<rfloor> \<and> ?idx ! c < 0"
  proof (intro allI impI)
    fix c assume c: "c < length rh" "rh ! c < 0"
    then have "\<not> 0 \<le> \<lfloor>m (rh ! c)\<rfloor>"
      using rounded_product_sign[OF assms(6), of "rh ! c"] by simp
    with c(1) show "?idx ! c = \<lfloor>m (rh ! c)\<rfloor> \<and> ?idx ! c < 0" by simp
  qed
  have low: "\<forall>c<length rh. - 1 \<le> rh ! c \<longrightarrow> - 100 \<le> ?idx ! c"
    using rounded_product_from_end[OF assms(6)] by simp
  have ok: "gather t coef idx_size ?idx idx_wvl
            = Inr (map (\<lambda>i. coef r (if 0 \<le> i then nat i else nat (100 + i)) w) ?idx)"
    if a: "\<forall>x\<in>set rh. - 1 \<le> x"
  proof -
    have "- int (n_rh t) \<le> i \<and> i < int (n_rh t)" if "i \<in> set ?idx" for i
    proof -
      from that obtain x where x: "x \<in> set rh" "i = min \<lfloor>m x\<rfloor> 99" by auto
      with a have "- 100 \<le> \<lfloor>m x\<rfloor>" using rounded_product_from_end[OF assms(6)] by simp
      with x show ?thesis by (simp add: assms(1))
    qed
    from gather_all_valid[OF assms(2,3) this, of ?idx coef] show ?thesis
      by (simp add: assms(1))
  qed
  have bad: "gather t coef idx_size ?idx idx_wvl = Inl IndexError" if "\<exists>x\<in>set rh. m x < - 100"
  proof -
    from that obtain x where x: "x \<in> set rh" "m x < - 100" by auto
    then have "\<lfloor>m x\<rfloor> < - 100" by (simp add: floor_less_iff)
    then have "min \<lfloor>m x\<rfloor> 99 < - int (n_rh t)" by (simp add: assms(1))
    moreover have "min \<lfloor>m x\<rfloor> 99 \<in> set ?idx" using x(1) by auto
    ultimately show ?thesis
      using gather_some_invalid[OF assms(2), of "min \<lfloor>m x\<rfloor> 99" ?idx coef idx_wvl] by blast
  qed
  show ?thesis
    apply (rule exI[of _ ?idx])
    apply (intro conjI)
    apply (rule i) apply simp apply (rule pos) apply (rule neg) apply (rule low)
    using ok apply blast using bad apply blast done
qed

text \<open>
  The last humidity is the float32 number nearest to -0.05: its index is -5, the floor of
  the rounded product, where the exact product is below -5, and it reads bin 95.
\<close>

theorem humidity_clamp_one_sided_witness:
  "\<exists>idx. idx_rh_of ex_mul100 ''SO4'' [1 / 2, - 1 / 2, 3 / 2, - 13421773 / 268435456] = Inr idx
    \<and> idx = [50, - 50, 99, - 5]
    \<and> gather ex_optics (ext ex_optics) 0 idx 0 = Inr [50, 50, 99, 95]
    \<and> (- 13421773 / 268435456 :: real) * 100 < - 5"
proof -
  let ?rh = "[1 / 2, - 1 / 2, 3 / 2, - 13421773 / 268435456 :: real]"
  have r: "\<forall>x\<in>set ?rh. - (2 ^ 31) \<le> \<lfloor>ex_mul100 x\<rfloor> \<and> \<lfloor>ex_mul100 x\<rfloor> < 2 ^ 31"
    by (simp add: ex_mul100_values)
  have p: "\<not> contains ''PHO'' ''SO4''" by simp
  have a: "n_rh ex_optics = 100" "py_index (n_size ex_optics) 0 = Inr 0"
    "py_index (n_wvl ex_optics) 0 = Inr 0"
    by (simp_all add: ex_optics_def py_index_def)
  from humidity_clamp_one_sided[OF a p r ex_mul100_rounded, of "ext ex_optics"] obtain idx where
    i: "idx_rh_of ex_mul100 ''SO4'' ?rh = Inr idx"
    and g: "(\<forall>x\<in>set ?rh. - 1 \<le> x) \<longrightarrow>
          gather ex_optics (ext ex_optics) 0 idx 0
            = Inr (map (\<lambda>i. ext ex_optics 0 (if 0 \<le> i then nat i else nat (100 + i)) 0) idx)"
    by (elim exE conjE) (rule that; assumption)
  have e: "idx = [50, - 50, 99, - 5]"
    using i by (simp add: idx_rh_of_def humidity_bin_def to_int32_def ex_mul100_values)
  have "gather ex_optics (ext ex_optics) 0 idx 0 = Inr [50, 50, 99, 95]"
    using g unfolding e by (simp add: ex_optics_def)
  moreover have "(- 13421773 / 268435456 :: real) * 100 < - 5" by simp
  ultimately show ?thesis using i e by blast
qed

text \<open>
  Claim C9 as stated fails: a cell with relative humidity -2, whose product with 100 is
  exactly -200 in floating point, gets bin -200, and the gather on the 100 humidity bins
  raises instead of reading from the end of the axis.
\<close>

theorem humidity_clamp_counterexample:
  "idx_rh_of ex_mul100 ''SO4'' [- 2] = Inr [- 200]
   \<and> gather ex_optics (ext ex_optics) 0 [- 200] 0 = Inl IndexError"
  by (simp add: idx_rh_of_def humidity_bin_def to_int32_def gather_def py_index_def ex_optics_def
      ex_mul100_values)

section \<open>Band selection\<close>











lemma ex_timestep_eval:
  "process_timestep ex_optics ''SO4'' 0 0 ex_snapshot = Inr ex_timestep_result"
  by code_simp





section \<open>Layer optical depth\<close>

lemma chunks_length: "length (chunks n w xs) = n"
  by (induction n arbitrary: xs) simp_all

lemma chunks_nth: "k < n \<Longrightarrow> chunks n w xs ! k = take w (drop (k * w) xs)"
proof (induction n arbitrary: k xs)
  case 0
  then show ?case by simp
next
  case (Suc n)
  show ?case
  proof (cases k)
    case 0
    then show ?thesis by simp
  next
    case (Suc k')
    with Suc.prems have "k' < n" by simp
    from Suc.IH[OF this, of "drop w xs"] Suc show ?thesis
      by (simp add: add.commute)
  qed
qed

lemma chunks_replicate: "chunks n w (replicate (n * w) v) = replicate n (replicate w v)"
proof (induction n)
  case 0
  then show ?case by simp
next
  case (Suc n)
  have "drop w (replicate (Suc n * w) v) = replicate (n * w) v" by simp
  moreover have "take w (replicate (Suc n * w) v) = replicate w v" by simp
  ultimately show ?case using Suc by simp
qed

lemma reshape3_Inr_iff:
  "reshape3 a b c xs = Inr x \<longleftrightarrow>
     length xs = a * b * c \<and> x = map (chunks b c) (chunks a (b * c) xs)"
  by (auto simp: reshape3_def)

lemma reshape3_nth:
  assumes "reshape3 a b c xs = Inr x" and "l < a" and "j < b" and "i < c"
  shows "x ! l ! j ! i = xs ! ((l * b + j) * c + i)"
proof -
  from assms(1) have len: "length xs = a * b * c"
    and x: "x = map (chunks b c) (chunks a (b * c) xs)"
    by (simp_all add: reshape3_Inr_iff)
  have lb: "l * (b * c) + b * c \<le> length xs"
  proof -
    have "(l + 1) * (b * c) \<le> a * (b * c)" using assms(2) by (intro mult_le_mono1) simp
    then show ?thesis by (simp add: len algebra_simps)
  qed
  have jc: "j * c + i < b * c"
  proof -
    have "j * c + i < (j + 1) * c" using assms(4) by simp
    also have "\<dots> \<le> b * c" using assms(3) by (intro mult_le_mono1) simp
    finally show ?thesis .
  qed
  have "x ! l ! j ! i = take c (drop (j * c) (take (b * c) (drop (l * (b * c)) xs))) ! i"
    using assms(2,3) by (simp add: x chunks_length chunks_nth)
  also have "\<dots> = drop (j * c) (take (b * c) (drop (l * (b * c)) xs)) ! i"
    using assms(4) by simp
  also have "\<dots> = take (b * c) (drop (l * (b * c)) xs) ! (j * c + i)"
  proof -
    have "length (take (b * c) (drop (l * (b * c)) xs)) = b * c"
      using lb by simp
    moreover have "j * c \<le> b * c"
      using assms(3) by (intro mult_le_mono1) simp
    ultimately have "j * c \<le> length (take (b * c) (drop (l * (b * c)) xs))"
      by (simp only:)
    then show ?thesis by (rule nth_drop)
  qed
  also have "\<dots> = drop (l * (b * c)) xs ! (j * c + i)"
    using jc by simp
  also have "\<dots> = xs ! (l * (b * c) + (j * c + i))"
  proof -
    have "l * (b * c) \<le> length xs" using lb by simp
    then show ?thesis by (rule nth_drop)
  qed
  also have "l * (b * c) + (j * c + i) = (l * b + j) * c + i"
    by (simp add: algebra_simps)
  finally show ?thesis .
qed

lemma reshape3_replicate:
  "reshape3 a b c (replicate (a * b * c) v) = Inr (replicate a (replicate b (replicate c v)))"
proof -
  have "chunks a (b * c) (replicate (a * (b * c)) v) = replicate a (replicate (b * c) v)"
    by (rule chunks_replicate)
  then show ?thesis
    by (simp add: reshape3_def chunks_replicate mult.assoc)
qed

lemma idx_rh_of_length: "idx_rh_of m species rh = Inr idx \<Longrightarrow> length idx = length rh"
  by (auto simp: idx_rh_of_def emap_Inr_iff dest: list_all2_lengthD split: if_splits)

lemma gather_length: "gather t coef idx_size idx idx_wvl = Inr k \<Longrightarrow> length k = length idx"
  by (auto simp: gather_def ebind_Inr_iff emap_Inr_iff dest: list_all2_lengthD)

lemma layer_tau_equal_lengths:
  assumes "length q = length delp" and "length k = length delp"
  shows "layer_tau delp q k = Inr (map (\<lambda>i. delp ! i * q ! i * k ! i / (98 / 10)) [0..<length delp])"
proof -
  have "map (\<lambda>x. x / g_earth) (map2 (*) (map2 (*) delp q) k)
      = map (\<lambda>i. delp ! i * q ! i * k ! i / (98 / 10)) [0..<length delp]"
    using assms by (intro nth_equalityI) (simp_all add: g_earth_def)
  then show ?thesis
    using assms by (simp add: layer_tau_def bcast2_def)
qed

lemma flat_index_bound:
  assumes "l < a" and "j < b" and "i < c"
  shows "(l * b + j) * c + i < a * b * (c :: nat)"
proof -
  have "(l * b + j) * c + i < (l * b + j + 1) * c" using assms(3) by simp
  also have "\<dots> \<le> ((l + 1) * b) * c" using assms(2) by (intro mult_le_mono1) simp
  also have "\<dots> \<le> (a * b) * c" using assms(1) by (intro mult_le_mono1) simp
  finally show ?thesis .
qed

lemma convert_Inr:
  assumes "convert ds_optics species idx_size idx_wvl s = Inr out"
  shows "\<exists>idx_rh q k_ext k_sca k_asm tau_ext tau_sca.
      idx_rh_of (mul100 s) species (RH s) = Inr idx_rh \<and> mixing s species = Some q
    \<and> gather ds_optics (ext ds_optics) idx_size idx_rh idx_wvl = Inr k_ext
    \<and> gather ds_optics (sca ds_optics) idx_size idx_rh idx_wvl = Inr k_sca
    \<and> gather ds_optics (asm ds_optics) idx_size idx_rh idx_wvl = Inr k_asm
    \<and> layer_tau (DELP s) q k_ext = Inr tau_ext
    \<and> layer_tau (DELP s) q k_sca = Inr tau_sca
    \<and> reshape3 (nlev s) (nlat s) (nlon s) (DELP s) = Inr (da_delp out)
    \<and> reshape3 (nlev s) (nlat s) (nlon s) tau_ext = Inr (da_tau_ext out)
    \<and> reshape3 (nlev s) (nlat s) (nlon s) tau_sca = Inr (da_tau_sca out)
    \<and> reshape3 (nlev s) (nlat s) (nlon s) k_asm = Inr (da_asm out)
    \<and> da_tau_ext_column out = sum_axis0 (nlat s) (nlon s) (da_tau_ext out)"
  using assms
  by (auto simp: convert_def ebind_Inr_iff split: option.splits)

lemma layer_tau_replicate:
  "layer_tau (replicate n d) (replicate n q) (replicate n k)
     = Inr (replicate n (d * q * k / (98 / 10)))"
  by (simp add: layer_tau_def bcast2_def g_earth_def)

lemma sum_axis0_single:
  "sum_axis0 a b [replicate a (replicate b v)] = replicate a (replicate b v)"
  by (simp add: sum_axis0_def add_plane_def)

lemma convert_cells:
  assumes c: "convert ds_optics species idx_size idx_wvl s = Inr out"
    and q: "mixing s species = Some q"
    and len: "length (DELP s) = length (RH s)" "length q = length (RH s)"
  shows "\<exists>idx_rh k_ext k_sca.
          idx_rh_of (mul100 s) species (RH s) = Inr idx_rh
        \<and> gather ds_optics (ext ds_optics) idx_size idx_rh idx_wvl = Inr k_ext
        \<and> gather ds_optics (sca ds_optics) idx_size idx_rh idx_wvl = Inr k_sca
        \<and> (\<forall>l<nlev s. \<forall>j<nlat s. \<forall>i<nlon s.
              da_tau_ext out ! l ! j ! i
                = DELP s ! ((l * nlat s + j) * nlon s + i) * q ! ((l * nlat s + j) * nlon s + i)
                  * k_ext ! ((l * nlat s + j) * nlon s + i) / (98 / 10)
            \<and> da_tau_sca out ! l ! j ! i
                = DELP s ! ((l * nlat s + j) * nlon s + i) * q ! ((l * nlat s + j) * nlon s + i)
                  * k_sca ! ((l * nlat s + j) * nlon s + i) / (98 / 10))"
proof -
  from convert_Inr[OF c] q obtain idx_rh k_ext k_sca tau_ext tau_sca where
    i: "idx_rh_of (mul100 s) species (RH s) = Inr idx_rh"
    and g: "gather ds_optics (ext ds_optics) idx_size idx_rh idx_wvl = Inr k_ext"
       "gather ds_optics (sca ds_optics) idx_size idx_rh idx_wvl = Inr k_sca"
    and t: "layer_tau (DELP s) q k_ext = Inr tau_ext" "layer_tau (DELP s) q k_sca = Inr tau_sca"
    and r: "reshape3 (nlev s) (nlat s) (nlon s) tau_ext = Inr (da_tau_ext out)"
       "reshape3 (nlev s) (nlat s) (nlon s) tau_sca = Inr (da_tau_sca out)"
    by auto
  have lk: "length k_ext = length (DELP s)" "length k_sca = length (DELP s)"
    using gather_length[OF g(1)] gather_length[OF g(2)] idx_rh_of_length[OF i] len by simp_all
  have lq: "length q = length (DELP s)" using len by simp
  have te: "tau_ext = map (\<lambda>i. DELP s ! i * q ! i * k_ext ! i / (98 / 10)) [0..<length (DELP s)]"
    using t(1) layer_tau_equal_lengths[OF lq lk(1)] by simp
  have ts: "tau_sca = map (\<lambda>i. DELP s ! i * q ! i * k_sca ! i / (98 / 10)) [0..<length (DELP s)]"
    using t(2) layer_tau_equal_lengths[OF lq lk(2)] by simp
  have n: "length (DELP s) = nlev s * nlat s * nlon s"
    using r(1) by (simp add: reshape3_Inr_iff te)
  have cells: "da_tau_ext out ! l ! j ! i
                = DELP s ! ((l * nlat s + j) * nlon s + i) * q ! ((l * nlat s + j) * nlon s + i)
                  * k_ext ! ((l * nlat s + j) * nlon s + i) / (98 / 10)
            \<and> da_tau_sca out ! l ! j ! i
                = DELP s ! ((l * nlat s + j) * nlon s + i) * q ! ((l * nlat s + j) * nlon s + i)
                  * k_sca ! ((l * nlat s + j) * nlon s + i) / (98 / 10)"
    if b: "l < nlev s" "j < nlat s" "i < nlon s" for l j i
  proof -
    have lt: "(l * nlat s + j) * nlon s + i < length (DELP s)"
      unfolding n using b by (rule flat_index_bound)
    show ?thesis
      using reshape3_nth[OF r(1) b] reshape3_nth[OF r(2) b] lt by (simp add: te ts)
  qed
  show ?thesis
    apply (rule exI[of _ idx_rh], rule exI[of _ k_ext], rule exI[of _ k_sca])
    using i g cells by blast
qed

lemma convert_uniform_single_level:
  assumes "n_rh ds_optics = 100"
    and "py_index (n_size ds_optics) idx_size = Inr r"
    and "py_index (n_wvl ds_optics) idx_wvl = Inr w"
    and "\<not> contains ''PHO'' species"
    and "m (1 / 2) = 50"
  shows "\<exists>out. convert ds_optics species idx_size idx_wvl
          \<lparr>nlev = 1, nlat = a, nlon = b, RH = replicate (a * b) (1 / 2),
           DELP = replicate (a * b) 1000, mixing = [species \<mapsto> replicate (a * b) (1 / 1000000)], mul100 = m\<rparr>
          = Inr out
      \<and> da_tau_ext out = [replicate a (replicate b (1000 * (1 / 1000000) * ext ds_optics r 50 w / (98 / 10)))]
      \<and> da_tau_ext_column out
           = replicate a (replicate b (1000 * (1 / 1000000) * ext ds_optics r 50 w / (98 / 10)))"
proof -
  let ?n = "a * b"
  have i: "idx_rh_of m species (replicate ?n (1 / 2)) = Inr (replicate ?n 50)"
    using idx_rh_of_in_range[OF assms(4), of "replicate ?n (1 / 2)" m] by (simp add: assms(5))
  have g: "gather ds_optics coef idx_size (replicate ?n 50) idx_wvl = Inr (replicate ?n (coef r 50 w))"
    for coef
    using gather_all_valid[OF assms(2,3), of "replicate ?n 50" coef] by (simp add: assms(1))
  have rs: "reshape3 (Suc 0) a b (replicate ?n v) = Inr [replicate a (replicate b v)]" for v :: real
    using reshape3_replicate[of "Suc 0" a b v] by simp
  show ?thesis
    by (simp add: convert_def i g layer_tau_replicate rs sum_axis0_single[simplified])
qed

lemma process_timestep_Inr:
  assumes "process_timestep ds_optics species idx_size idx_wvl s = Inr (n, sub)"
  shows "convert ds_optics species idx_size idx_wvl s = Inr n
    \<and> (\<exists>r. subsample_raw (nlev s) (nlat s) (nlon s) n = Inr r \<and> sub = clip_sub (nlat s) (nlon s) r)"
  using assms by (auto simp: process_timestep_def ebind_Inr_iff)

lemma subsample_no_levels: "nlev' < 3 \<Longrightarrow> subsample red nlev' nlat' nlon' a = Inr []"
  by (simp add: subsample_def)

text \<open>
  Claim C2. Whenever a time step is converted, and the pressure thickness and the mixing
  ratio have one value per cell of the humidity field, the layer extinction and scattering
  optical depths of the cell \<open>(l, j, i)\<close> are
  \<open>pressure_thickness * mixing_ratio * efficiency / 9.8\<close>, the three factors read at the
  flat position of the cell and the efficiency being the coefficient gathered for the cell.
  On a single-level grid with relative humidity 0.5, whose floating-point product with 100
  is exactly 50, pressure thickness 1000 and mixing
  ratio 1e-6 in every cell the converter returns, the layer extinction optical depth is
  \<open>1000 * 1e-6 * k_ext(bin 50) / 9.8\<close> in every cell, and the column equals the layer.
\<close>

theorem layer_optical_depth:
  "(process_timestep ds_optics species idx_size idx_wvl s = Inr (n, sub)
      \<and> mixing s species = Some q
      \<and> length (DELP s) = length (RH s) \<and> length q = length (RH s) \<longrightarrow>
      (\<exists>idx_rh k_ext k_sca.
          idx_rh_of (mul100 s) species (RH s) = Inr idx_rh
        \<and> gather ds_optics (ext ds_optics) idx_size idx_rh idx_wvl = Inr k_ext
        \<and> gather ds_optics (sca ds_optics) idx_size idx_rh idx_wvl = Inr k_sca
        \<and> (\<forall>l<nlev s. \<forall>j<nlat s. \<forall>i<nlon s.
              da_tau_ext n ! l ! j ! i
                = DELP s ! ((l * nlat s + j) * nlon s + i) * q ! ((l * nlat s + j) * nlon s + i)
                  * k_ext ! ((l * nlat s + j) * nlon s + i) / (98 / 10)
            \<and> da_tau_sca n ! l ! j ! i
                = DELP s ! ((l * nlat s + j) * nlon s + i) * q ! ((l * nlat s + j) * nlon s + i)
                  * k_sca ! ((l * nlat s + j) * nlon s + i) / (98 / 10))))
   \<and> (n_rh ds_optics = 100 \<and> py_index (n_size ds_optics) idx_size = Inr r
      \<and> py_index (n_wvl ds_optics) idx_wvl = Inr w \<and> \<not> contains ''PHO'' species \<and> 0 < a
      \<and> m (1 / 2) = 50 \<longrightarrow>
      (\<exists>n' sub'. process_timestep ds_optics species idx_size idx_wvl
          \<lparr>nlev = 1, nlat = a, nlon = b, RH = replicate (a * b) (1 / 2),
           DELP = replicate (a * b) 1000, mixing = [species \<mapsto> replicate (a * b) (1 / 1000000)], mul100 = m\<rparr>
          = Inr (n', sub')
        \<and> da_tau_ext n' = [replicate a (replicate b (1000 * (1 / 1000000) * ext ds_optics r 50 w / (98 / 10)))]
        \<and> da_tau_ext_column n'
           = replicate a (replicate b (1000 * (1 / 1000000) * ext ds_optics r 50 w / (98 / 10)))))"
proof (intro conjI impI)
  assume h: "process_timestep ds_optics species idx_size idx_wvl s = Inr (n, sub)
      \<and> mixing s species = Some q
      \<and> length (DELP s) = length (RH s) \<and> length q = length (RH s)"
  then have c: "convert ds_optics species idx_size idx_wvl s = Inr n"
    using process_timestep_Inr by blast
  from h show "\<exists>idx_rh k_ext k_sca.
          idx_rh_of (mul100 s) species (RH s) = Inr idx_rh
        \<and> gather ds_optics (ext ds_optics) idx_size idx_rh idx_wvl = Inr k_ext
        \<and> gather ds_optics (sca ds_optics) idx_size idx_rh idx_wvl = Inr k_sca
        \<and> (\<forall>l<nlev s. \<forall>j<nlat s. \<forall>i<nlon s.
              da_tau_ext n ! l ! j ! i
                = DELP s ! ((l * nlat s + j) * nlon s + i) * q ! ((l * nlat s + j) * nlon s + i)
                  * k_ext ! ((l * nlat s + j) * nlon s + i) / (98 / 10)
            \<and> da_tau_sca n ! l ! j ! i
                = DELP s ! ((l * nlat s + j) * nlon s + i) * q ! ((l * nlat s + j) * nlon s + i)
                  * k_sca ! ((l * nlat s + j) * nlon s + i) / (98 / 10))"
    by (intro convert_cells[OF c]) simp_all
next
  assume h: "n_rh ds_optics = 100 \<and> py_index (n_size ds_optics) idx_size = Inr r
      \<and> py_index (n_wvl ds_optics) idx_wvl = Inr w \<and> \<not> contains ''PHO'' species \<and> 0 < a
      \<and> m (1 / 2) = 50"
  let ?s = "\<lparr>nlev = 1, nlat = a, nlon = b, RH = replicate (a * b) (1 / 2),
           DELP = replicate (a * b) 1000, mixing = [species \<mapsto> replicate (a * b) (1 / 1000000)], mul100 = m\<rparr>"
  let ?v = "1000 * (1 / 1000000) * ext ds_optics r 50 w / (98 / 10)"
  from h have "\<exists>out. convert ds_optics species idx_size idx_wvl ?s = Inr out
      \<and> da_tau_ext out = [replicate a (replicate b ?v)]
      \<and> da_tau_ext_column out = replicate a (replicate b ?v)"
    by (intro convert_uniform_single_level) simp_all
  then obtain out where o: "convert ds_optics species idx_size idx_wvl ?s = Inr out"
    and v: "da_tau_ext out = [replicate a (replicate b ?v)]"
       "da_tau_ext_column out = replicate a (replicate b ?v)"
    by (elim exE conjE) (rule that; assumption)
  have sr: "subsample_raw (Suc 0) a b out
      = Inr \<lparr>delp_sub = [], tau_ext_sub = [], tau_sca_sub = [], asm_sub = []\<rparr>"
    by (simp add: subsample_raw_def subsample_no_levels)
  have ix: "py_index a (int (a div 2)) = Inr (a div 2)"
    using h by (simp add: py_index_def)
  have p: "process_timestep ds_optics species idx_size idx_wvl ?s
      = Inr (out, clip_sub a b \<lparr>delp_sub = [], tau_ext_sub = [], tau_sca_sub = [], asm_sub = []\<rparr>)"
    by (simp add: process_timestep_def o[unfolded One_nat_def] sr ix)
  show "\<exists>n' sub'. process_timestep ds_optics species idx_size idx_wvl ?s = Inr (n', sub')
        \<and> da_tau_ext n' = [replicate a (replicate b ?v)]
        \<and> da_tau_ext_column n' = replicate a (replicate b ?v)"
    using p v by blast
qed

theorem layer_optical_depth_witness:
  "process_timestep ex_optics ''SO4'' 0 0 ex_snapshot = Inr ex_timestep_result
   \<and> mixing ex_snapshot ''SO4'' = Some (replicate 18 (1 / 100))
   \<and> (\<exists>idx_rh k_ext k_sca.
          idx_rh_of (mul100 ex_snapshot) ''SO4'' (RH ex_snapshot) = Inr idx_rh
        \<and> gather ex_optics (ext ex_optics) 0 idx_rh 0 = Inr k_ext
        \<and> gather ex_optics (sca ex_optics) 0 idx_rh 0 = Inr k_sca
        \<and> da_tau_ext (fst ex_timestep_result) ! 2 ! 2 ! 1
            = DELP ex_snapshot ! 17 * replicate 18 (1 / 100) ! 17 * k_ext ! 17 / (98 / 10)
        \<and> da_tau_ext (fst ex_timestep_result) ! 2 ! 2 ! 1 = 1 / 2)
   \<and> (\<exists>n' sub'. process_timestep ex_optics ''SO4'' 0 0
          \<lparr>nlev = 1, nlat = 2, nlon = 2, RH = replicate (2 * 2) (1 / 2),
           DELP = replicate (2 * 2) 1000, mixing = [''SO4'' \<mapsto> replicate (2 * 2) (1 / 1000000)], mul100 = ex_mul100\<rparr>
          = Inr (n', sub')
        \<and> da_tau_ext n' = [replicate 2 (replicate 2 (1000 * (1 / 1000000) * 50 / (98 / 10)))]
        \<and> da_tau_ext_column n' = replicate 2 (replicate 2 (1000 * (1 / 1000000) * 50 / (98 / 10))))"
proof -
  note t = layer_optical_depth[where ds_optics = ex_optics and species = "''SO4''"
      and idx_size = 0 and idx_wvl = 0 and s = ex_snapshot and n = "fst ex_timestep_result"
      and sub = "snd ex_timestep_result" and q = "replicate 18 (1 / 100)" and r = 0 and w = 0
      and a = 2 and b = 2 and m = ex_mul100]
  have m: "mixing ex_snapshot ''SO4'' = Some (replicate 18 (1 / 100))"
    by (simp add: ex_snapshot_def)
  have h1: "process_timestep ex_optics ''SO4'' 0 0 ex_snapshot
        = Inr (fst ex_timestep_result, snd ex_timestep_result)
      \<and> mixing ex_snapshot ''SO4'' = Some (replicate 18 (1 / 100))
      \<and> length (DELP ex_snapshot) = length (RH ex_snapshot)
      \<and> length (replicate 18 (1 / 100 :: real)) = length (RH ex_snapshot)"
    by (simp add: ex_timestep_eval m) (simp add: ex_snapshot_def)
  have h2: "n_rh ex_optics = 100 \<and> py_index (n_size ex_optics) 0 = Inr 0
      \<and> py_index (n_wvl ex_optics) 0 = Inr 0 \<and> \<not> contains ''PHO'' ''SO4'' \<and> 0 < (2 :: nat)
      \<and> ex_mul100 (1 / 2) = 50"
    by (simp add: ex_optics_def py_index_def ex_mul100_values)
  from t[THEN conjunct1, THEN mp, OF h1] obtain idx_rh k_ext k_sca where
    i: "idx_rh_of (mul100 ex_snapshot) ''SO4'' (RH ex_snapshot) = Inr idx_rh"
    and g: "gather ex_optics (ext ex_optics) 0 idx_rh 0 = Inr k_ext"
       "gather ex_optics (sca ex_optics) 0 idx_rh 0 = Inr k_sca"
    and c: "\<forall>l<nlev ex_snapshot. \<forall>j<nlat ex_snapshot. \<forall>i<nlon ex_snapshot.
              da_tau_ext (fst ex_timestep_result) ! l ! j ! i
                = DELP ex_snapshot ! ((l * nlat ex_snapshot + j) * nlon ex_snapshot + i)
                  * replicate 18 (1 / 100) ! ((l * nlat ex_snapshot + j) * nlon ex_snapshot + i)
                  * k_ext ! ((l * nlat ex_snapshot + j) * nlon ex_snapshot + i) / (98 / 10)
            \<and> da_tau_sca (fst ex_timestep_result) ! l ! j ! i
                = DELP ex_snapshot ! ((l * nlat ex_snapshot + j) * nlon ex_snapshot + i)
                  * replicate 18 (1 / 100) ! ((l * nlat ex_snapshot + j) * nlon ex_snapshot + i)
                  * k_sca ! ((l * nlat ex_snapshot + j) * nlon ex_snapshot + i) / (98 / 10)"
    by (elim exE conjE) (rule that; assumption)
  have sh: "nlev ex_snapshot = 3" "nlat ex_snapshot = 3" "nlon ex_snapshot = 2"
    by (simp_all add: ex_snapshot_def)
  have c': "da_tau_ext (fst ex_timestep_result) ! 2 ! 2 ! 1
            = DELP ex_snapshot ! 17 * replicate 18 (1 / 100) ! 17 * k_ext ! 17 / (98 / 10)"
    using c[unfolded sh, THEN spec, of 2, THEN mp, THEN spec, of 2, THEN mp, THEN spec, of 1, THEN mp]
    by simp
  have v: "da_tau_ext (fst ex_timestep_result) ! 2 ! 2 ! 1 = 1 / 2"
    by (simp add: ex_timestep_result_def eval_nat_numeral)
  have p1: "\<exists>idx_rh k_ext k_sca.
          idx_rh_of (mul100 ex_snapshot) ''SO4'' (RH ex_snapshot) = Inr idx_rh
        \<and> gather ex_optics (ext ex_optics) 0 idx_rh 0 = Inr k_ext
        \<and> gather ex_optics (sca ex_optics) 0 idx_rh 0 = Inr k_sca
        \<and> da_tau_ext (fst ex_timestep_result) ! 2 ! 2 ! 1
            = DELP ex_snapshot ! 17 * replicate 18 (1 / 100) ! 17 * k_ext ! 17 / (98 / 10)
        \<and> da_tau_ext (fst ex_timestep_result) ! 2 ! 2 ! 1 = 1 / 2"
    using i g c' v by blast
  have e50: "ext ex_optics 0 50 0 = 50" by (simp add: ex_optics_def)
  note p2 = t[THEN conjunct2, THEN mp, OF h2, unfolded e50]
  show ?thesis
    apply (intro conjI)
    apply (rule ex_timestep_eval) apply (rule m) apply (rule p1) apply (rule p2) done
qed

section \<open>Shapes and cells of the sub-sampler\<close>

lemma shape2_nth: "shape2 r c p \<Longrightarrow> j < r \<Longrightarrow> length (p ! j) = c"
  by (simp add: shape2_def)

lemma shape3_nth: "shape3 l r c x \<Longrightarrow> k < l \<Longrightarrow> shape2 r c (x ! k)"
  by (simp add: shape3_def)

lemma shape2_I: "length p = r \<Longrightarrow> (\<And>j. j < r \<Longrightarrow> length (p ! j) = c) \<Longrightarrow> shape2 r c p"
  by (auto simp: shape2_def in_set_conv_nth)

lemma shape3_I: "length x = l \<Longrightarrow> (\<And>k. k < l \<Longrightarrow> shape2 r c (x ! k)) \<Longrightarrow> shape3 l r c x"
  by (auto simp: shape3_def in_set_conv_nth)

lemma chunks_shape:
  assumes "length xs = n * w"
  shows "shape2 n w (chunks n w xs)"
proof (rule shape2_I)
  show "length (chunks n w xs) = n" by (rule chunks_length)
next
  fix j assume j: "j < n"
  have "(j + 1) * w \<le> n * w" using j by (intro mult_le_mono1) simp
  then have "j * w + w \<le> length xs" by (simp add: assms)
  then show "length (chunks n w xs ! j) = w"
    using j by (simp add: chunks_nth)
qed

lemma reshape3_shape:
  assumes "reshape3 a b c xs = Inr x"
  shows "shape3 a b c x"
proof (rule shape3_I)
  from assms have len: "length xs = a * (b * c)"
    and x: "x = map (chunks b c) (chunks a (b * c) xs)"
    by (simp_all add: reshape3_Inr_iff mult.assoc)
  show "length x = a" by (simp add: x chunks_length)
  fix k assume k: "k < a"
  have "length (chunks a (b * c) xs ! k) = b * c"
    using chunks_shape[OF len] k by (rule shape2_nth)
  then have "shape2 b c (chunks b c (chunks a (b * c) xs ! k))"
    by (rule chunks_shape)
  then show "shape2 b c (x ! k)"
    using k by (simp add: x chunks_length)
qed

lemma evens_length: "length (evens xs) = (length xs + 1) div 2"
  by (induction xs rule: evens.induct) simp_all

lemma evens_nth: "i < (length xs + 1) div 2 \<Longrightarrow> evens xs ! i = xs ! (2 * i)"
proof (induction xs arbitrary: i rule: evens.induct)
  case 1
  then show ?case by simp
next
  case (2 x)
  then show ?case by simp
next
  case (3 x y xs)
  then show ?case by (cases i) simp_all
qed

lemma odds_length: "length (odds xs) = length xs div 2"
  by (cases xs) (simp_all add: odds_def evens_length)

lemma odds_nth: "i < length xs div 2 \<Longrightarrow> odds xs ! i = xs ! (2 * i + 1)"
  by (cases xs) (simp_all add: odds_def evens_nth)

lemma evens_butlast_length: "length (evens_butlast xs) = length xs div 2"
  by (cases "xs = []") (simp_all add: evens_butlast_def evens_length Suc_diff_le Suc_leI)

lemma evens_butlast_nth:
  assumes "i < length xs div 2"
  shows "evens_butlast xs ! i = xs ! (2 * i)"
proof -
  have "2 * i < length xs - 1" using assms by linarith
  moreover have "i < (length (butlast xs) + 1) div 2" using assms by simp
  ultimately show ?thesis
    by (simp add: evens_butlast_def evens_nth nth_butlast)
qed

lemma add_plane_shape: "shape2 r c a \<Longrightarrow> shape2 r c b \<Longrightarrow> shape2 r c (add_plane a b)"
  by (rule shape2_I) (simp_all add: add_plane_def shape2_nth shape2_def)

lemma add_plane_nth:
  assumes "shape2 r c a" and "shape2 r c b" and "j < r" and "i < c"
  shows "add_plane a b ! j ! i = a ! j ! i + b ! j ! i"
proof -
  have "length a = r" "length b = r" using assms(1,2) by (simp_all add: shape2_def)
  moreover have "length (a ! j) = c" "length (b ! j) = c"
    using assms by (simp_all add: shape2_nth)
  ultimately show ?thesis
    using assms(3,4) by (simp add: add_plane_def)
qed

lemma scale_plane_shape: "shape2 r c a \<Longrightarrow> shape2 r c (scale_plane v a)"
  by (simp add: shape2_def scale_plane_def)

lemma scale_plane_nth:
  assumes "shape2 r c a" and "j < r" and "i < c"
  shows "scale_plane v a ! j ! i = v * a ! j ! i"
proof -
  have "length a = r" using assms(1) by (simp add: shape2_def)
  moreover have "length (a ! j) = c" using assms by (simp add: shape2_nth)
  ultimately show ?thesis
    using assms(2,3) by (simp add: scale_plane_def)
qed

lemma zero_plane_shape: "shape2 r c (replicate r (replicate c v))"
  by (simp add: shape2_def)

lemma foldl_add_plane:
  assumes "shape2 r c acc" and "\<forall>p\<in>set ps. shape2 r c p"
  shows "shape2 r c (foldl add_plane acc ps)
    \<and> (\<forall>j<r. \<forall>i<c. foldl add_plane acc ps ! j ! i = acc ! j ! i + (\<Sum>p\<leftarrow>ps. p ! j ! i))"
  using assms
proof (induction ps arbitrary: acc)
  case Nil
  then show ?case by simp
next
  case (Cons p ps)
  have p: "shape2 r c p" using Cons.prems(2) by simp
  have s: "shape2 r c (add_plane acc p)"
    using Cons.prems(1) p by (rule add_plane_shape)
  have rest: "\<forall>p\<in>set ps. shape2 r c p" using Cons.prems(2) by simp
  note IH = Cons.IH[OF s rest]
  have "foldl add_plane (add_plane acc p) ps ! j ! i
      = acc ! j ! i + (p ! j ! i + (\<Sum>p\<leftarrow>ps. p ! j ! i))" if "j < r" "i < c" for j i
    using IH[THEN conjunct2] that add_plane_nth[OF Cons.prems(1) p that] by simp
  then show ?case
    using IH[THEN conjunct1] by simp
qed

lemma sum_axis0_shape:
  assumes "\<forall>p\<in>set ps. shape2 r c p"
  shows "shape2 r c (sum_axis0 r c ps)"
  unfolding sum_axis0_def
  using foldl_add_plane[OF zero_plane_shape assms] by blast

lemma sum_axis0_nth:
  assumes "\<forall>p\<in>set ps. shape2 r c p" and "j < r" and "i < c"
  shows "sum_axis0 r c ps ! j ! i = (\<Sum>p\<leftarrow>ps. p ! j ! i)"
  unfolding sum_axis0_def
  using foldl_add_plane[OF zero_plane_shape assms(1), of 0] assms(2,3) by simp

lemma mean_axis0_shape:
  assumes "\<forall>p\<in>set ps. shape2 r c p"
  shows "shape2 r c (mean_axis0 r c ps)"
  using sum_axis0_shape[OF assms] by (simp add: mean_axis0_def shape2_def)

lemma mean_axis0_nth:
  assumes "\<forall>p\<in>set ps. shape2 r c p" and "j < r" and "i < c"
  shows "mean_axis0 r c ps ! j ! i = (\<Sum>p\<leftarrow>ps. p ! j ! i) / real (length ps)"
proof -
  note s = sum_axis0_shape[OF assms(1)]
  have "length (sum_axis0 r c ps) = r" using s by (simp add: shape2_def)
  moreover have "length (sum_axis0 r c ps ! j) = c" using s assms(2) by (rule shape2_nth)
  ultimately show ?thesis
    using assms(2,3) sum_axis0_nth[OF assms] by (simp add: mean_axis0_def)
qed

lemma in_set_tl: "x \<in> set (tl xs) \<Longrightarrow> x \<in> set xs"
  by (cases xs) auto

lemma mid_lat_shape:
  assumes "shape3 l r c x"
  shows "shape3 l (r - 1) c (mid_lat x)"
proof (rule shape3_I)
  show "length (mid_lat x) = l" using assms by (simp add: mid_lat_def shape3_def)
next
  fix k assume k: "k < l"
  note p = shape3_nth[OF assms k]
  have lp: "length (x ! k) = r" using p by (simp add: shape2_def)
  have b: "shape2 (r - 1) c (butlast (x ! k))"
    using p by (auto simp: shape2_def dest: in_set_butlastD)
  have t: "shape2 (r - 1) c (tl (x ! k))"
    using p by (auto simp: shape2_def dest: in_set_tl)
  have "shape2 (r - 1) c (scale_plane 0.5 (add_plane (butlast (x ! k)) (tl (x ! k))))"
    by (intro scale_plane_shape add_plane_shape b t)
  moreover have "length x = l" using assms by (simp add: shape3_def)
  ultimately show "shape2 (r - 1) c (mid_lat x ! k)"
    using k by (simp add: mid_lat_def)
qed

lemma mid_lat_nth:
  assumes "shape3 l r c x" and "k < l" and "j < r - 1" and "i < c"
  shows "mid_lat x ! k ! j ! i = 0.5 * (x ! k ! j ! i + x ! k ! (j + 1) ! i)"
proof -
  note p = shape3_nth[OF assms(1,2)]
  have lp: "length (x ! k) = r" using p by (simp add: shape2_def)
  have lx: "length x = l" using assms(1) by (simp add: shape3_def)
  have b: "shape2 (r - 1) c (butlast (x ! k))"
    using p by (auto simp: shape2_def dest: in_set_butlastD)
  have t: "shape2 (r - 1) c (tl (x ! k))"
    using p by (auto simp: shape2_def dest: in_set_tl)
  have "mid_lat x ! k ! j ! i
      = 0.5 * (butlast (x ! k) ! j ! i + tl (x ! k) ! j ! i)"
    using assms(2,3,4) lx
    by (simp add: mid_lat_def scale_plane_nth[OF add_plane_shape[OF b t]] add_plane_nth[OF b t])
  moreover have "butlast (x ! k) ! j = x ! k ! j"
    using assms(3) lp by (simp add: nth_butlast)
  moreover have "tl (x ! k) ! j = x ! k ! (j + 1)"
    using assms(3) lp by (simp add: nth_tl)
  ultimately show ?thesis by simp
qed

lemma take3_drop:
  assumes "3 * k + 3 \<le> length xs"
  shows "take 3 (drop (3 * k) xs) = [xs ! (3 * k), xs ! (3 * k + 1), xs ! (3 * k + 2)]"
proof (rule nth_equalityI)
  show "length (take 3 (drop (3 * k) xs)) = length [xs ! (3 * k), xs ! (3 * k + 1), xs ! (3 * k + 2)]"
    using assms by simp
next
  fix i assume "i < length (take 3 (drop (3 * k) xs))"
  then have i: "i < 3" by simp
  then have "i = 0 \<or> i = 1 \<or> i = 2" by linarith
  then show "take 3 (drop (3 * k) xs) ! i = [xs ! (3 * k), xs ! (3 * k + 1), xs ! (3 * k + 2)] ! i"
    using assms by (auto simp: nth_drop)
qed

lemma selected_rows_shape:
  assumes "shape2 (nlat' - 1) nlon' p"
  shows "shape2 (sel_rows nlat') (sel_cols nlon') (map evens (evens_butlast p))"
    and "shape2 (sel_rows nlat') (sel_cols nlon') (map evens (odds p))"
proof -
  have lp: "length p = nlat' - 1" using assms by (simp add: shape2_def)
  have rows: "length row = nlon'" if "row \<in> set p" for row
    using assms that by (simp add: shape2_def)
  show "shape2 (sel_rows nlat') (sel_cols nlon') (map evens (evens_butlast p))"
  proof (rule shape2_I)
    show "length (map evens (evens_butlast p)) = sel_rows nlat'"
      by (simp add: evens_butlast_length lp sel_rows_def)
    fix j assume j: "j < sel_rows nlat'"
    then have jj: "j < length p div 2" by (simp add: lp sel_rows_def)
    then have "2 * j < length p" by linarith
    then have "length (p ! (2 * j)) = nlon'" by (intro rows) simp
    then show "length (map evens (evens_butlast p) ! j) = sel_cols nlon'"
      using jj by (simp add: evens_butlast_length evens_butlast_nth evens_length sel_cols_def)
  qed
  show "shape2 (sel_rows nlat') (sel_cols nlon') (map evens (odds p))"
  proof (rule shape2_I)
    show "length (map evens (odds p)) = sel_rows nlat'"
      by (simp add: odds_length lp sel_rows_def)
    fix j assume j: "j < sel_rows nlat'"
    then have jj: "j < length p div 2" by (simp add: lp sel_rows_def)
    then have "2 * j + 1 < length p" by linarith
    then have "length (p ! (2 * j + 1)) = nlon'" by (intro rows) simp
    then show "length (map evens (odds p) ! j) = sel_cols nlon'"
      using jj by (simp add: odds_length odds_nth evens_length sel_cols_def)
  qed
qed

lemma selected_rows_nth:
  assumes "shape2 (nlat' - 1) nlon' p" and "j < sel_rows nlat'" and "i < sel_cols nlon'"
  shows "map evens (evens_butlast p) ! j ! i = p ! (2 * j) ! (2 * i)"
    and "map evens (odds p) ! j ! i = p ! (2 * j + 1) ! (2 * i)"
proof -
  have lp: "length p = nlat' - 1" using assms(1) by (simp add: shape2_def)
  have jj: "j < length p div 2" using assms(2) by (simp add: lp sel_rows_def)
  have b: "2 * j < nlat' - 1" "2 * j + 1 < nlat' - 1"
    using jj unfolding lp by linarith+
  have r0: "length (p ! (2 * j)) = nlon'"
    using assms(1) b(1) by (rule shape2_nth)
  have r1: "length (p ! (2 * j + 1)) = nlon'"
    using assms(1) b(2) by (rule shape2_nth)
  show "map evens (evens_butlast p) ! j ! i = p ! (2 * j) ! (2 * i)"
    using jj assms(3) r0 by (simp add: evens_butlast_length evens_butlast_nth evens_nth sel_cols_def)
  show "map evens (odds p) ! j ! i = p ! (2 * j + 1) ! (2 * i)"
    using jj assms(3) r1 by (simp add: odds_length odds_nth evens_nth sel_cols_def)
qed

lemma block_slices:
  assumes "shape3 nlev' (nlat' - 1) nlon' m" and "3 * k + 3 \<le> nlev'"
  shows "take 3 (drop (3 * k) m) = [m ! (3 * k), m ! (3 * k + 1), m ! (3 * k + 2)]"
    and "shape2 (nlat' - 1) nlon' (m ! (3 * k))"
    and "shape2 (nlat' - 1) nlon' (m ! (3 * k + 1))"
    and "shape2 (nlat' - 1) nlon' (m ! (3 * k + 2))"
proof -
  have l: "length m = nlev'" using assms(1) by (simp add: shape3_def)
  show "take 3 (drop (3 * k) m) = [m ! (3 * k), m ! (3 * k + 1), m ! (3 * k + 2)]"
    using assms(2) l by (intro take3_drop) simp
  show "shape2 (nlat' - 1) nlon' (m ! (3 * k))"
    using assms by (intro shape3_nth[of nlev']) simp_all
  show "shape2 (nlat' - 1) nlon' (m ! (3 * k + 1))"
    using assms by (intro shape3_nth[of nlev']) simp_all
  show "shape2 (nlat' - 1) nlon' (m ! (3 * k + 2))"
    using assms by (intro shape3_nth[of nlev']) simp_all
qed

lemma block_value_sum:
  assumes "shape3 nlev' (nlat' - 1) nlon' m" and "3 * k + 3 \<le> nlev'"
  shows "shape2 (sel_rows nlat') (sel_cols nlon') (block_value sum_axis0 nlat' nlon' m k)"
    and "j < sel_rows nlat' \<Longrightarrow> i < sel_cols nlon' \<Longrightarrow>
      block_value sum_axis0 nlat' nlon' m k ! j ! i
      = 0.5 * ((m ! (3 * k) ! (2 * j) ! (2 * i) + m ! (3 * k + 1) ! (2 * j) ! (2 * i)
                + m ! (3 * k + 2) ! (2 * j) ! (2 * i))
             + (m ! (3 * k) ! (2 * j + 1) ! (2 * i) + m ! (3 * k + 1) ! (2 * j + 1) ! (2 * i)
                + m ! (3 * k + 2) ! (2 * j + 1) ! (2 * i)))"
proof -
  note b = block_slices[OF assms]
  let ?E = "map (\<lambda>p. map evens (evens_butlast p)) [m ! (3 * k), m ! (3 * k + 1), m ! (3 * k + 2)]"
  let ?O = "map (\<lambda>p. map evens (odds p)) [m ! (3 * k), m ! (3 * k + 1), m ! (3 * k + 2)]"
  have sE: "\<forall>p\<in>set ?E. shape2 (sel_rows nlat') (sel_cols nlon') p"
    using selected_rows_shape(1)[OF b(2)] selected_rows_shape(1)[OF b(3)]
      selected_rows_shape(1)[OF b(4)] by simp
  have sO: "\<forall>p\<in>set ?O. shape2 (sel_rows nlat') (sel_cols nlon') p"
    using selected_rows_shape(2)[OF b(2)] selected_rows_shape(2)[OF b(3)]
      selected_rows_shape(2)[OF b(4)] by simp
  have bv: "block_value sum_axis0 nlat' nlon' m k
      = scale_plane 0.5 (add_plane (sum_axis0 (sel_rows nlat') (sel_cols nlon') ?E)
                                   (sum_axis0 (sel_rows nlat') (sel_cols nlon') ?O))"
    by (simp add: block_value_def Let_def b(1))
  note shE = sum_axis0_shape[OF sE]
  note shO = sum_axis0_shape[OF sO]
  show "shape2 (sel_rows nlat') (sel_cols nlon') (block_value sum_axis0 nlat' nlon' m k)"
    unfolding bv by (intro scale_plane_shape add_plane_shape shE shO)
  assume ji: "j < sel_rows nlat'" "i < sel_cols nlon'"
  have "block_value sum_axis0 nlat' nlon' m k ! j ! i
      = 0.5 * ((\<Sum>p\<leftarrow>?E. p ! j ! i) + (\<Sum>p\<leftarrow>?O. p ! j ! i))"
    unfolding bv
    by (simp only: scale_plane_nth[OF add_plane_shape[OF shE shO] ji]
        add_plane_nth[OF shE shO ji] sum_axis0_nth[OF sE ji] sum_axis0_nth[OF sO ji])
  also have "(\<Sum>p\<leftarrow>?E. p ! j ! i)
      = m ! (3 * k) ! (2 * j) ! (2 * i) + m ! (3 * k + 1) ! (2 * j) ! (2 * i)
                + m ! (3 * k + 2) ! (2 * j) ! (2 * i)"
    using selected_rows_nth(1)[OF b(2) ji] selected_rows_nth(1)[OF b(3) ji]
      selected_rows_nth(1)[OF b(4) ji] by simp
  also have "(\<Sum>p\<leftarrow>?O. p ! j ! i)
      = m ! (3 * k) ! (2 * j + 1) ! (2 * i) + m ! (3 * k + 1) ! (2 * j + 1) ! (2 * i)
                + m ! (3 * k + 2) ! (2 * j + 1) ! (2 * i)"
    using selected_rows_nth(2)[OF b(2) ji] selected_rows_nth(2)[OF b(3) ji]
      selected_rows_nth(2)[OF b(4) ji] by simp
  finally show "block_value sum_axis0 nlat' nlon' m k ! j ! i
      = 0.5 * ((m ! (3 * k) ! (2 * j) ! (2 * i) + m ! (3 * k + 1) ! (2 * j) ! (2 * i)
                + m ! (3 * k + 2) ! (2 * j) ! (2 * i))
             + (m ! (3 * k) ! (2 * j + 1) ! (2 * i) + m ! (3 * k + 1) ! (2 * j + 1) ! (2 * i)
                + m ! (3 * k + 2) ! (2 * j + 1) ! (2 * i)))" .
qed

lemma block_value_mean:
  assumes "shape3 nlev' (nlat' - 1) nlon' m" and "3 * k + 3 \<le> nlev'"
  shows "shape2 (sel_rows nlat') (sel_cols nlon') (block_value mean_axis0 nlat' nlon' m k)"
    and "j < sel_rows nlat' \<Longrightarrow> i < sel_cols nlon' \<Longrightarrow>
      block_value mean_axis0 nlat' nlon' m k ! j ! i
      = 0.5 * ((m ! (3 * k) ! (2 * j) ! (2 * i) + m ! (3 * k + 1) ! (2 * j) ! (2 * i)
                + m ! (3 * k + 2) ! (2 * j) ! (2 * i)) / 3
             + (m ! (3 * k) ! (2 * j + 1) ! (2 * i) + m ! (3 * k + 1) ! (2 * j + 1) ! (2 * i)
                + m ! (3 * k + 2) ! (2 * j + 1) ! (2 * i)) / 3)"
proof -
  note b = block_slices[OF assms]
  let ?E = "map (\<lambda>p. map evens (evens_butlast p)) [m ! (3 * k), m ! (3 * k + 1), m ! (3 * k + 2)]"
  let ?O = "map (\<lambda>p. map evens (odds p)) [m ! (3 * k), m ! (3 * k + 1), m ! (3 * k + 2)]"
  have sE: "\<forall>p\<in>set ?E. shape2 (sel_rows nlat') (sel_cols nlon') p"
    using selected_rows_shape(1)[OF b(2)] selected_rows_shape(1)[OF b(3)]
      selected_rows_shape(1)[OF b(4)] by simp
  have sO: "\<forall>p\<in>set ?O. shape2 (sel_rows nlat') (sel_cols nlon') p"
    using selected_rows_shape(2)[OF b(2)] selected_rows_shape(2)[OF b(3)]
      selected_rows_shape(2)[OF b(4)] by simp
  have bv: "block_value mean_axis0 nlat' nlon' m k
      = scale_plane 0.5 (add_plane (mean_axis0 (sel_rows nlat') (sel_cols nlon') ?E)
                                   (mean_axis0 (sel_rows nlat') (sel_cols nlon') ?O))"
    by (simp add: block_value_def Let_def b(1))
  note shE = mean_axis0_shape[OF sE]
  note shO = mean_axis0_shape[OF sO]
  show "shape2 (sel_rows nlat') (sel_cols nlon') (block_value mean_axis0 nlat' nlon' m k)"
    unfolding bv by (intro scale_plane_shape add_plane_shape shE shO)
  assume ji: "j < sel_rows nlat'" "i < sel_cols nlon'"
  have "block_value mean_axis0 nlat' nlon' m k ! j ! i
      = 0.5 * ((\<Sum>p\<leftarrow>?E. p ! j ! i) / real (length ?E) + (\<Sum>p\<leftarrow>?O. p ! j ! i) / real (length ?O))"
    unfolding bv
    by (simp only: scale_plane_nth[OF add_plane_shape[OF shE shO] ji]
        add_plane_nth[OF shE shO ji] mean_axis0_nth[OF sE ji] mean_axis0_nth[OF sO ji])
  also have "(\<Sum>p\<leftarrow>?E. p ! j ! i)
      = m ! (3 * k) ! (2 * j) ! (2 * i) + m ! (3 * k + 1) ! (2 * j) ! (2 * i)
                + m ! (3 * k + 2) ! (2 * j) ! (2 * i)"
    using selected_rows_nth(1)[OF b(2) ji] selected_rows_nth(1)[OF b(3) ji]
      selected_rows_nth(1)[OF b(4) ji] by simp
  also have "(\<Sum>p\<leftarrow>?O. p ! j ! i)
      = m ! (3 * k) ! (2 * j + 1) ! (2 * i) + m ! (3 * k + 1) ! (2 * j + 1) ! (2 * i)
                + m ! (3 * k + 2) ! (2 * j + 1) ! (2 * i)"
    using selected_rows_nth(2)[OF b(2) ji] selected_rows_nth(2)[OF b(3) ji]
      selected_rows_nth(2)[OF b(4) ji] by simp
  finally show "block_value mean_axis0 nlat' nlon' m k ! j ! i
      = 0.5 * ((m ! (3 * k) ! (2 * j) ! (2 * i) + m ! (3 * k + 1) ! (2 * j) ! (2 * i)
                + m ! (3 * k + 2) ! (2 * j) ! (2 * i)) / 3
             + (m ! (3 * k) ! (2 * j + 1) ! (2 * i) + m ! (3 * k + 1) ! (2 * j + 1) ! (2 * i)
                + m ! (3 * k + 2) ! (2 * j + 1) ! (2 * i)) / 3)" by simp
qed

lemma broadcast_axis_Inr:
  assumes "broadcast_axis have want xs = Inr ys" and "length xs = have"
  shows "length ys = want" and "i < want \<Longrightarrow> ys ! i = xs ! (if have = want then i else 0)"
    and "have = want \<or> have = 1"
proof -
  from assms(1) have c: "have = want \<or> have = 1"
    by (auto simp: broadcast_axis_def split: if_splits)
  then show "have = want \<or> have = 1" .
  from assms show "length ys = want"
    by (auto simp: broadcast_axis_def split: if_splits)
  assume "i < want"
  moreover have "hd xs = xs ! 0" if "length xs = 1"
    using that by (cases xs) simp_all
  ultimately show "ys ! i = xs ! (if have = want then i else 0)"
    using assms by (auto simp: broadcast_axis_def split: if_splits)
qed

lemma assign_plane_Inr:
  assumes "assign_plane a b rows cols v = Inr y" and "shape2 a b v"
  shows "shape2 rows cols y"
    and "j < rows \<Longrightarrow> i < cols \<Longrightarrow>
      y ! j ! i = v ! (if a = rows then j else 0) ! (if b = cols then i else 0)"
proof -
  from assms(1) obtain v' where v': "broadcast_axis a rows v = Inr v'"
    and y: "list_all2 (\<lambda>row row'. broadcast_axis b cols row = Inr row') v' y"
    by (auto simp: assign_plane_def ebind_Inr_iff emap_Inr_iff)
  have lv: "length v = a" using assms(2) by (simp add: shape2_def)
  note bv = broadcast_axis_Inr[OF v' lv]
  have ly: "length y = rows" using y bv(1) by (simp add: list_all2_lengthD[symmetric])
  have row: "broadcast_axis b cols (v' ! j) = Inr (y ! j)" if "j < rows" for j
    using y that bv(1) by (simp add: list_all2_conv_all_nth)
  have src: "v' ! j = v ! (if a = rows then j else 0)" if "j < rows" for j
    using bv(2)[OF that] .
  have inb: "(if a = rows then j else 0) < a" if "j < rows" for j
    using bv(3) that by auto
  have lrow: "length (v' ! j) = b" if "j < rows" for j
    using shape2_nth[OF assms(2) inb[OF that]] src[OF that] by simp
  show "shape2 rows cols y"
  proof (rule shape2_I[OF ly])
    fix j assume j: "j < rows"
    from broadcast_axis_Inr(1)[OF row[OF j] lrow[OF j]] show "length (y ! j) = cols" .
  qed
  assume j: "j < rows" and i: "i < cols"
  from broadcast_axis_Inr(2)[OF row[OF j] lrow[OF j] i] src[OF j]
  show "y ! j ! i = v ! (if a = rows then j else 0) ! (if b = cols then i else 0)"
    by simp
qed

lemma subsample_Inr:
  assumes "subsample red nlev' nlat' nlon' a = Inr x"
    and "\<And>k. k < nlev' div 3 \<Longrightarrow>
           shape2 (sel_rows nlat') (sel_cols nlon') (block_value red nlat' nlon' (mid_lat a) k)"
  shows "shape3 (nlev' div 3) (nlat' div 2) (nlon' div 2) x"
    and "k < nlev' div 3 \<Longrightarrow> j < nlat' div 2 \<Longrightarrow> i < nlon' div 2 \<Longrightarrow>
      x ! k ! j ! i = block_value red nlat' nlon' (mid_lat a) k
           ! (if sel_rows nlat' = nlat' div 2 then j else 0)
           ! (if sel_cols nlon' = nlon' div 2 then i else 0)"
proof -
  from assms(1) have l2: "list_all2 (\<lambda>ilev y.
      assign_plane (sel_rows nlat') (sel_cols nlon') (nlat' div 2) (nlon' div 2)
        (block_value red nlat' nlon' (mid_lat a) ilev) = Inr y) [0..<nlev' div 3] x"
    by (simp add: subsample_def emap_Inr_iff)
  then have lx: "length x = nlev' div 3"
    by (simp add: list_all2_lengthD[symmetric])
  have ap: "assign_plane (sel_rows nlat') (sel_cols nlon') (nlat' div 2) (nlon' div 2)
        (block_value red nlat' nlon' (mid_lat a) k) = Inr (x ! k)" if "k < nlev' div 3" for k
    using l2 that by (simp add: list_all2_conv_all_nth)
  show "shape3 (nlev' div 3) (nlat' div 2) (nlon' div 2) x"
  proof (rule shape3_I[OF lx])
    fix k assume k: "k < nlev' div 3"
    from assign_plane_Inr(1)[OF ap[OF k] assms(2)[OF k]]
    show "shape2 (nlat' div 2) (nlon' div 2) (x ! k)" .
  qed
  assume k: "k < nlev' div 3" and j: "j < nlat' div 2" and i: "i < nlon' div 2"
  from assign_plane_Inr(2)[OF ap[OF k] assms(2)[OF k] j i]
  show "x ! k ! j ! i = block_value red nlat' nlon' (mid_lat a) k
           ! (if sel_rows nlat' = nlat' div 2 then j else 0)
           ! (if sel_cols nlon' = nlon' div 2 then i else 0)" .
qed

lemma subsample_shape:
  assumes "subsample red nlev' nlat' nlon' a = Inr x" and "shape3 nlev' nlat' nlon' a"
    and "red = sum_axis0 \<or> red = mean_axis0"
  shows "shape3 (nlev' div 3) (nlat' div 2) (nlon' div 2) x"
proof (rule subsample_Inr(1)[OF assms(1)])
  fix k assume "k < nlev' div 3"
  then have k: "3 * k + 3 \<le> nlev'" by linarith
  note m = mid_lat_shape[OF assms(2)]
  from assms(3) show "shape2 (sel_rows nlat') (sel_cols nlon') (block_value red nlat' nlon' (mid_lat a) k)"
    using block_value_sum(1)[OF m k] block_value_mean(1)[OF m k] by auto
qed

section \<open>Clipping\<close>

lemma shape3_cell:
  assumes "shape3 l r c x" and "k < l" and "j < r"
  shows "length x = l" and "length (x ! k) = r" and "length (x ! k ! j) = c"
proof -
  show "length x = l" using assms(1) by (simp add: shape3_def)
  note p = shape3_nth[OF assms(1,2)]
  show "length (x ! k) = r" using p by (simp add: shape2_def)
  show "length (x ! k ! j) = c" using p assms(3) by (rule shape2_nth)
qed

lemma map3_shape:
  assumes "shape3 l r c x"
  shows "shape3 l r c (map (map (map f)) x)"
  using assms by (auto simp: shape3_def shape2_def)

lemma map3_nth:
  assumes "shape3 l r c x" and "k < l" and "j < r" and "i < c"
  shows "map (map (map f)) x ! k ! j ! i = f (x ! k ! j ! i)"
  using shape3_cell[OF assms(1,2,3)] assms(2,3,4) by simp

lemma clip_sca_shape:
  assumes "shape3 l r c x" and "shape3 l r c e"
  shows "shape3 l r c (clip_sca x e)"
proof (rule shape3_I)
  show "length (clip_sca x e) = l"
    using assms by (simp add: clip_sca_def shape3_def)
  fix k assume k: "k < l"
  have lx: "length x = l" "length e = l" using assms by (simp_all add: shape3_def)
  have "clip_sca x e ! k = map2 (map2 (\<lambda>v hi. clip v 0 hi)) (x ! k) (e ! k)"
    using k lx by (simp add: clip_sca_def)
  moreover have "shape2 r c (map2 (map2 (\<lambda>v hi. clip v 0 hi)) (x ! k) (e ! k))"
  proof (rule shape2_I)
    show "length (map2 (map2 (\<lambda>v hi. clip v 0 hi)) (x ! k) (e ! k)) = r"
      using shape3_nth[OF assms(1) k] shape3_nth[OF assms(2) k] by (simp add: shape2_def)
    fix j assume j: "j < r"
    show "length (map2 (map2 (\<lambda>v hi. clip v 0 hi)) (x ! k) (e ! k) ! j) = c"
      using shape3_cell[OF assms(1) k j] shape3_cell[OF assms(2) k j] j by simp
  qed
  ultimately show "shape2 r c (clip_sca x e ! k)" by simp
qed

lemma clip_sca_nth:
  assumes "shape3 l r c x" and "shape3 l r c e" and "k < l" and "j < r" and "i < c"
  shows "clip_sca x e ! k ! j ! i = clip (x ! k ! j ! i) 0 (e ! k ! j ! i)"
  using shape3_cell[OF assms(1,3,4)] shape3_cell[OF assms(2,3,4)] assms(3,4,5)
  by (simp add: clip_sca_def)

lemma clip_bounds:
  "0 \<le> clip x 0 10" "clip x 0 10 \<le> 10" "- 1 \<le> clip x (- 1) 1" "clip x (- 1) 1 \<le> 1"
  "0 \<le> hi \<Longrightarrow> 0 \<le> clip x 0 hi" "clip x 0 hi \<le> hi"
  by (simp_all add: clip_def)

lemma clip_sca_saturates: "e < x \<Longrightarrow> clip x 0 (clip e 0 10) = clip e 0 10"
  by (simp add: clip_def min_def max_def)

lemma subsample_raw_Inr:
  assumes "subsample_raw nlev' nlat' nlon' n = Inr raw"
  shows "subsample sum_axis0 nlev' nlat' nlon' (da_delp n) = Inr (delp_sub raw)"
    and "subsample sum_axis0 nlev' nlat' nlon' (da_tau_ext n) = Inr (tau_ext_sub raw)"
    and "subsample sum_axis0 nlev' nlat' nlon' (da_tau_sca n) = Inr (tau_sca_sub raw)"
    and "subsample mean_axis0 nlev' nlat' nlon' (da_asm n) = Inr (asm_sub raw)"
  using assms by (auto simp: subsample_raw_def ebind_Inr_iff)

lemma convert_shapes:
  assumes "convert ds_optics species idx_size idx_wvl s = Inr n"
  shows "shape3 (nlev s) (nlat s) (nlon s) (da_delp n)"
    and "shape3 (nlev s) (nlat s) (nlon s) (da_tau_ext n)"
    and "shape3 (nlev s) (nlat s) (nlon s) (da_tau_sca n)"
    and "shape3 (nlev s) (nlat s) (nlon s) (da_asm n)"
  using convert_Inr[OF assms] by (auto intro: reshape3_shape)

lemma process_timestep_raw:
  assumes "process_timestep ds_optics species idx_size idx_wvl s = Inr (n, sub)"
  shows "\<exists>raw. subsample_raw (nlev s) (nlat s) (nlon s) n = Inr raw
    \<and> sub = clip_sub (nlat s) (nlon s) raw
    \<and> shape3 (nlev s div 3) (nlat s div 2) (nlon s div 2) (delp_sub raw)
    \<and> shape3 (nlev s div 3) (nlat s div 2) (nlon s div 2) (tau_ext_sub raw)
    \<and> shape3 (nlev s div 3) (nlat s div 2) (nlon s div 2) (tau_sca_sub raw)
    \<and> shape3 (nlev s div 3) (nlat s div 2) (nlon s div 2) (asm_sub raw)"
proof -
  from process_timestep_Inr[OF assms] obtain raw where
    c: "convert ds_optics species idx_size idx_wvl s = Inr n"
    and r: "subsample_raw (nlev s) (nlat s) (nlon s) n = Inr raw"
    and s: "sub = clip_sub (nlat s) (nlon s) raw"
    by blast
  note sh = convert_shapes[OF c]
  note ss = subsample_raw_Inr[OF r]
  have "shape3 (nlev s div 3) (nlat s div 2) (nlon s div 2) (delp_sub raw)"
    using ss(1) sh(1) by (rule subsample_shape) simp
  moreover have "shape3 (nlev s div 3) (nlat s div 2) (nlon s div 2) (tau_ext_sub raw)"
    using ss(2) sh(2) by (rule subsample_shape) simp
  moreover have "shape3 (nlev s div 3) (nlat s div 2) (nlon s div 2) (tau_sca_sub raw)"
    using ss(3) sh(3) by (rule subsample_shape) simp
  moreover have "shape3 (nlev s div 3) (nlat s div 2) (nlon s div 2) (asm_sub raw)"
    using ss(4) sh(4) by (rule subsample_shape) simp
  ultimately show ?thesis using r s by blast
qed

text \<open>
  Claim C1. Whenever a time step is processed, the sub-sampled extinction, scattering and
  asymmetry fields have the shape \<open>(nlev // 3, nlat // 2, nlon // 2)\<close>, and in every cell
  the extinction lies in \<open>[0, 10]\<close>, the scattering in \<open>[0, extinction]\<close> and the
  asymmetry in \<open>[-1, 1]\<close>; in a cell whose scattering exceeded its extinction before the
  clipping, the clipped scattering equals the clipped extinction.
\<close>

theorem clipping_invariant:
  assumes "process_timestep ds_optics species idx_size idx_wvl s = Inr (n, sub)"
  shows "\<exists>raw. subsample_raw (nlev s) (nlat s) (nlon s) n = Inr raw
    \<and> shape3 (nlev s div 3) (nlat s div 2) (nlon s div 2) (da_tau_ext_sub sub)
    \<and> shape3 (nlev s div 3) (nlat s div 2) (nlon s div 2) (da_tau_sca_sub sub)
    \<and> shape3 (nlev s div 3) (nlat s div 2) (nlon s div 2) (da_asm_sub sub)
    \<and> (\<forall>k<nlev s div 3. \<forall>j<nlat s div 2. \<forall>i<nlon s div 2.
          0 \<le> da_tau_ext_sub sub ! k ! j ! i \<and> da_tau_ext_sub sub ! k ! j ! i \<le> 10
        \<and> 0 \<le> da_tau_sca_sub sub ! k ! j ! i
        \<and> da_tau_sca_sub sub ! k ! j ! i \<le> da_tau_ext_sub sub ! k ! j ! i
        \<and> - 1 \<le> da_asm_sub sub ! k ! j ! i \<and> da_asm_sub sub ! k ! j ! i \<le> 1
        \<and> (tau_ext_sub raw ! k ! j ! i < tau_sca_sub raw ! k ! j ! i \<longrightarrow>
              da_tau_sca_sub sub ! k ! j ! i = da_tau_ext_sub sub ! k ! j ! i))"
proof -
  from process_timestep_raw[OF assms] obtain raw where
    r: "subsample_raw (nlev s) (nlat s) (nlon s) n = Inr raw"
    and s: "sub = clip_sub (nlat s) (nlon s) raw"
    and she: "shape3 (nlev s div 3) (nlat s div 2) (nlon s div 2) (tau_ext_sub raw)"
    and shs: "shape3 (nlev s div 3) (nlat s div 2) (nlon s div 2) (tau_sca_sub raw)"
    and sha: "shape3 (nlev s div 3) (nlat s div 2) (nlon s div 2) (asm_sub raw)"
    by (elim exE conjE) (rule that; assumption)
  let ?e = "clip_ext (tau_ext_sub raw)"
  have e: "da_tau_ext_sub sub = ?e"
    and sc: "da_tau_sca_sub sub = clip_sca (tau_sca_sub raw) ?e"
    and a: "da_asm_sub sub = clip_asm (asm_sub raw)"
    by (simp_all add: s clip_sub_def Let_def)
  have she': "shape3 (nlev s div 3) (nlat s div 2) (nlon s div 2) ?e"
    unfolding clip_ext_def using she by (rule map3_shape)
  have shs': "shape3 (nlev s div 3) (nlat s div 2) (nlon s div 2) (clip_sca (tau_sca_sub raw) ?e)"
    using shs she' by (rule clip_sca_shape)
  have sha': "shape3 (nlev s div 3) (nlat s div 2) (nlon s div 2) (clip_asm (asm_sub raw))"
    unfolding clip_asm_def using sha by (rule map3_shape)
  have cells: "0 \<le> da_tau_ext_sub sub ! k ! j ! i \<and> da_tau_ext_sub sub ! k ! j ! i \<le> 10
        \<and> 0 \<le> da_tau_sca_sub sub ! k ! j ! i
        \<and> da_tau_sca_sub sub ! k ! j ! i \<le> da_tau_ext_sub sub ! k ! j ! i
        \<and> - 1 \<le> da_asm_sub sub ! k ! j ! i \<and> da_asm_sub sub ! k ! j ! i \<le> 1
        \<and> (tau_ext_sub raw ! k ! j ! i < tau_sca_sub raw ! k ! j ! i \<longrightarrow>
              da_tau_sca_sub sub ! k ! j ! i = da_tau_ext_sub sub ! k ! j ! i)"
    if b: "k < nlev s div 3" "j < nlat s div 2" "i < nlon s div 2" for k j i
  proof -
    have ve: "da_tau_ext_sub sub ! k ! j ! i = clip (tau_ext_sub raw ! k ! j ! i) 0 10"
      unfolding e clip_ext_def using she b by (rule map3_nth)
    have va: "da_asm_sub sub ! k ! j ! i = clip (asm_sub raw ! k ! j ! i) (- 1) 1"
      unfolding a clip_asm_def using sha b by (rule map3_nth)
    have vs: "da_tau_sca_sub sub ! k ! j ! i
        = clip (tau_sca_sub raw ! k ! j ! i) 0 (clip (tau_ext_sub raw ! k ! j ! i) 0 10)"
      unfolding sc using clip_sca_nth[OF shs she' b] ve[unfolded e] by simp
    show ?thesis
      unfolding ve va vs
      using clip_bounds(1)[of "tau_ext_sub raw ! k ! j ! i"]
      by (auto simp: clip_bounds clip_sca_saturates)
  qed
  show ?thesis
    apply (rule exI[of _ raw])
    apply (intro conjI)
    apply (rule r) apply (simp only: e she') apply (simp only: sc shs') apply (simp only: a sha')
    using cells apply blast done
qed

lemma ex_raw_eval:
  "subsample_raw 3 3 2 (fst ex_timestep_result)
     = Inr \<lparr>delp_sub = [[[294 / 10]]], tau_ext_sub = [[[3 / 2]]], tau_sca_sub = [[[3]]],
            asm_sub = [[[3]]]\<rparr>"
  by code_simp

theorem clipping_invariant_witness:
  "process_timestep ex_optics ''SO4'' 0 0 ex_snapshot = Inr ex_timestep_result
   \<and> (\<exists>raw. subsample_raw (nlev ex_snapshot) (nlat ex_snapshot) (nlon ex_snapshot)
               (fst ex_timestep_result) = Inr raw
       \<and> tau_ext_sub raw ! 0 ! 0 ! 0 = 3 / 2 \<and> tau_sca_sub raw ! 0 ! 0 ! 0 = 3
       \<and> asm_sub raw ! 0 ! 0 ! 0 = 3
       \<and> da_tau_sca_sub (snd ex_timestep_result) ! 0 ! 0 ! 0
           = da_tau_ext_sub (snd ex_timestep_result) ! 0 ! 0 ! 0
       \<and> da_tau_ext_sub (snd ex_timestep_result) ! 0 ! 0 ! 0 = 3 / 2
       \<and> da_asm_sub (snd ex_timestep_result) ! 0 ! 0 ! 0 = 1)"
proof -
  have p: "process_timestep ex_optics ''SO4'' 0 0 ex_snapshot
      = Inr (fst ex_timestep_result, snd ex_timestep_result)"
    by (simp add: ex_timestep_eval)
  have sh: "nlev ex_snapshot = 3" "nlat ex_snapshot = 3" "nlon ex_snapshot = 2"
    by (simp_all add: ex_snapshot_def)
  from clipping_invariant[OF p] obtain raw where
    r: "subsample_raw (nlev ex_snapshot) (nlat ex_snapshot) (nlon ex_snapshot)
          (fst ex_timestep_result) = Inr raw"
    and c: "\<forall>k<nlev ex_snapshot div 3. \<forall>j<nlat ex_snapshot div 2. \<forall>i<nlon ex_snapshot div 2.
          0 \<le> da_tau_ext_sub (snd ex_timestep_result) ! k ! j ! i
        \<and> da_tau_ext_sub (snd ex_timestep_result) ! k ! j ! i \<le> 10
        \<and> 0 \<le> da_tau_sca_sub (snd ex_timestep_result) ! k ! j ! i
        \<and> da_tau_sca_sub (snd ex_timestep_result) ! k ! j ! i
            \<le> da_tau_ext_sub (snd ex_timestep_result) ! k ! j ! i
        \<and> - 1 \<le> da_asm_sub (snd ex_timestep_result) ! k ! j ! i
        \<and> da_asm_sub (snd ex_timestep_result) ! k ! j ! i \<le> 1
        \<and> (tau_ext_sub raw ! k ! j ! i < tau_sca_sub raw ! k ! j ! i \<longrightarrow>
              da_tau_sca_sub (snd ex_timestep_result) ! k ! j ! i
                = da_tau_ext_sub (snd ex_timestep_result) ! k ! j ! i)"
    by (elim exE conjE) (rule that; assumption)
  have raw: "raw = \<lparr>delp_sub = [[[294 / 10]]], tau_ext_sub = [[[3 / 2]]], tau_sca_sub = [[[3]]],
            asm_sub = [[[3]]]\<rparr>"
    using r ex_raw_eval unfolding sh by simp
  have v: "tau_ext_sub raw ! 0 ! 0 ! 0 = 3 / 2" "tau_sca_sub raw ! 0 ! 0 ! 0 = 3"
    "asm_sub raw ! 0 ! 0 ! 0 = 3"
    by (simp_all add: raw)
  have lt: "tau_ext_sub raw ! 0 ! 0 ! 0 < tau_sca_sub raw ! 0 ! 0 ! 0"
    by (simp add: v)
  have b: "(0 :: nat) < nlev ex_snapshot div 3" "(0 :: nat) < nlat ex_snapshot div 2"
    "(0 :: nat) < nlon ex_snapshot div 2"
    by (simp_all add: sh)
  note c0 = c[THEN spec, of 0, THEN mp, OF b(1), THEN spec, of 0, THEN mp, OF b(2),
      THEN spec, of 0, THEN mp, OF b(3)]
  have eq: "da_tau_sca_sub (snd ex_timestep_result) ! 0 ! 0 ! 0
           = da_tau_ext_sub (snd ex_timestep_result) ! 0 ! 0 ! 0"
    using c0 lt by blast
  have o: "da_tau_ext_sub (snd ex_timestep_result) ! 0 ! 0 ! 0 = 3 / 2"
    "da_asm_sub (snd ex_timestep_result) ! 0 ! 0 ! 0 = 1"
    by (simp_all add: ex_timestep_result_def)
  show ?thesis
    using ex_timestep_eval r v eq o by blast
qed

lemma level_field_symbolic:
  "subsample sum_axis0 6 4 4 (map (\<lambda>l. replicate 4 (replicate 4 (v l))) [0..<6])
    = Inr [replicate 2 (replicate 2 (v 0 + v 1 + v 2)), replicate 2 (replicate 2 (v 3 + v 4 + v 5))]"
  by code_simp simp

text \<open>
  Claim C5, amended. On a grid of 6 levels, 4 latitudes and 4 longitudes whose extinction
  depends on the level only, the sub-sampler returns a field of shape \<open>(2, 2, 2)\<close>. Every
  cell of output level \<open>k\<close> is the sum of the three native levels \<open>3k\<close>, \<open>3k + 1\<close> and
  \<open>3k + 2\<close>, and the clipping step limits that sum to \<open>[0, 10]\<close>.
\<close>

theorem level_index_scenario:
  "\<exists>x. subsample sum_axis0 6 4 4 (map (\<lambda>l. replicate 4 (replicate 4 (v l))) [0..<6]) = Inr x
    \<and> shape3 2 2 2 x
    \<and> (\<forall>k<2. \<forall>j<2. \<forall>i<2.
          x ! k ! j ! i = v (3 * k) + v (3 * k + 1) + v (3 * k + 2)
        \<and> clip_ext x ! k ! j ! i = clip (v (3 * k) + v (3 * k + 1) + v (3 * k + 2)) 0 10)"
proof -
  let ?x = "[replicate 2 (replicate 2 (v 0 + v 1 + v 2)), replicate 2 (replicate 2 (v 3 + v 4 + v 5))]"
  have sh: "shape3 2 2 2 ?x"
    by (simp add: shape3_def shape2_def)
  have cells: "?x ! k ! j ! i = v (3 * k) + v (3 * k + 1) + v (3 * k + 2)
        \<and> clip_ext ?x ! k ! j ! i = clip (v (3 * k) + v (3 * k + 1) + v (3 * k + 2)) 0 10"
    if b: "k < 2" "j < 2" "i < 2" for k j i
  proof -
    have c: "clip_ext ?x ! k ! j ! i = clip (?x ! k ! j ! i) 0 10"
      unfolding clip_ext_def using sh b by (rule map3_nth)
    have x0: "?x ! 0 ! j ! i = v 0 + v 1 + v 2"
      using b(2,3) by simp
    have x1: "?x ! 1 ! j ! i = v 3 + v 4 + v 5"
      using b(2,3) by simp
    have "k = 0 \<or> k = 1" using b(1) by linarith
    then have "?x ! k ! j ! i = v (3 * k) + v (3 * k + 1) + v (3 * k + 2)"
    proof
      assume k: "k = 0"
      have "3 * k = 0" "3 * k + 1 = 1" "3 * k + 2 = 2"
        unfolding k by linarith+
      then have "v (3 * k) + v (3 * k + 1) + v (3 * k + 2) = v 0 + v 1 + v 2"
        by (simp only:)
      then show ?thesis using x0 unfolding k by (simp only:)
    next
      assume k: "k = 1"
      have "3 * k = 3" "3 * k + 1 = 4" "3 * k + 2 = 5"
        unfolding k by linarith+
      then have "v (3 * k) + v (3 * k + 1) + v (3 * k + 2) = v 3 + v 4 + v 5"
        by (simp only:)
      then show ?thesis using x1 unfolding k by (simp only:)
    qed
    with c show ?thesis by (simp only:)
  qed
  show ?thesis
    apply (rule exI[of _ ?x])
    apply (intro conjI)
    apply (rule level_field_symbolic) apply (rule sh)
    using cells apply blast done
qed

theorem level_index_scenario_witness:
  "\<exists>x. subsample sum_axis0 6 4 4 ex_level_field = Inr x
     \<and> x ! 0 ! 0 ! 0 = 3 \<and> clip_ext x ! 0 ! 0 ! 0 = 3
     \<and> x ! 1 ! 1 ! 1 = 12 \<and> clip_ext x ! 1 ! 1 ! 1 = 10"
proof -
  from level_index_scenario[of real] obtain x where
    s: "subsample sum_axis0 6 4 4 (map (\<lambda>l. replicate 4 (replicate 4 (real l))) [0..<6]) = Inr x"
    and c: "\<forall>k<2. \<forall>j<2. \<forall>i<2.
          x ! k ! j ! i = real (3 * k) + real (3 * k + 1) + real (3 * k + 2)
        \<and> clip_ext x ! k ! j ! i = clip (real (3 * k) + real (3 * k + 1) + real (3 * k + 2)) 0 10"
    by (elim exE conjE) (rule that; assumption)
  have b: "(0 :: nat) < 2" "(1 :: nat) < 2" by simp_all
  note c0 = c[THEN spec, of 0, THEN mp, OF b(1), THEN spec, of 0, THEN mp, OF b(1),
      THEN spec, of 0, THEN mp, OF b(1)]
  note c1 = c[THEN spec, of 1, THEN mp, OF b(2), THEN spec, of 1, THEN mp, OF b(2),
      THEN spec, of 1, THEN mp, OF b(2)]
  have "x ! 0 ! 0 ! 0 = 3" "clip_ext x ! 0 ! 0 ! 0 = 3"
    "x ! 1 ! 1 ! 1 = 12" "clip_ext x ! 1 ! 1 ! 1 = 10"
    using c0 c1 by (simp_all add: clip_def)
  with s show ?thesis
    unfolding ex_level_field_def by blast
qed

text \<open>
  Claim C5 as stated fails: with the level index as extinction the two output levels are
  3 and 10 (the sums 0 + 1 + 2 and 3 + 4 + 5, the second clipped from 12), not the means
  1 and 4 of the contributing levels.
\<close>

theorem level_index_counterexample:
  "subsample sum_axis0 6 4 4 ex_level_field = Inr [[[3, 3], [3, 3]], [[12, 12], [12, 12]]]
   \<and> clip_ext [[[3, 3], [3, 3]], [[12, 12], [12, 12]]] = [[[3, 3], [3, 3]], [[10, 10], [10, 10]]]
   \<and> [[[3, 3], [3, 3]], [[10, 10], [10, 10]]] \<noteq> [[[1, 1], [1, 1]], [[4, 4], [4, 4 :: real]]]"
  by code_simp

section \<open>Cells of the sub-sampler\<close>

lemma assign_plane_same:
  assumes "shape2 a b v"
  shows "assign_plane a b a b v = Inr v"
proof -
  have "emap (broadcast_axis b b) v = Inr (map (\<lambda>row. row) v)"
    by (rule emap_total) (simp add: broadcast_axis_def)
  then show ?thesis
    by (simp add: assign_plane_def broadcast_axis_def)
qed

lemma subsample_no_broadcast:
  assumes "shape3 nlev' nlat' nlon' a"
    and "sel_rows nlat' = nlat' div 2" and "sel_cols nlon' = nlon' div 2"
    and "red = sum_axis0 \<or> red = mean_axis0"
  shows "subsample red nlev' nlat' nlon' a
     = Inr (map (block_value red nlat' nlon' (mid_lat a)) [0..<nlev' div 3])"
  unfolding subsample_def
proof (rule emap_total)
  fix k assume "k \<in> set [0..<nlev' div 3]"
  then have "k < nlev' div 3" by simp
  then have k: "3 * k + 3 \<le> nlev'" by linarith
  note m = mid_lat_shape[OF assms(1)]
  have "shape2 (sel_rows nlat') (sel_cols nlon') (block_value red nlat' nlon' (mid_lat a) k)"
    using assms(4) block_value_sum(1)[OF m k] block_value_mean(1)[OF m k] by auto
  from assign_plane_same[OF this]
  show "assign_plane (sel_rows nlat') (sel_cols nlon') (nlat' div 2) (nlon' div 2)
          (block_value red nlat' nlon' (mid_lat a) k)
        = Inr (block_value red nlat' nlon' (mid_lat a) k)"
    by (simp add: assms(2,3))
qed

text \<open>
  Claim C4, amended. On a native field with an odd number of latitudes and an even number
  of longitudes the sub-sampler returns. Its mid values average each pair of adjacent
  latitude rows of one level. A cell \<open>(k, j, i)\<close> of the summed output is half the sum of
  the mid rows \<open>2j\<close> and \<open>2j + 1\<close>, each added over the three native levels \<open>3k\<close>,
  \<open>3k + 1\<close>, \<open>3k + 2\<close>, read at the even longitude \<open>2i\<close> alone; the asymmetry output
  divides each of the two sums over the levels by 3.
\<close>

theorem subsample_cells:
  assumes "shape3 nlev' nlat' nlon' a" and "odd nlat'" and "even nlon'"
  shows "\<exists>x y. subsample sum_axis0 nlev' nlat' nlon' a = Inr x
    \<and> subsample mean_axis0 nlev' nlat' nlon' a = Inr y
    \<and> (\<forall>l<nlev'. \<forall>r<nlat' - 1. \<forall>c<nlon'.
          mid_lat a ! l ! r ! c = 0.5 * (a ! l ! r ! c + a ! l ! (r + 1) ! c))
    \<and> (\<forall>k<nlev' div 3. \<forall>j<nlat' div 2. \<forall>i<nlon' div 2.
          x ! k ! j ! i
            = 0.5 * ((mid_lat a ! (3 * k) ! (2 * j) ! (2 * i)
                      + mid_lat a ! (3 * k + 1) ! (2 * j) ! (2 * i)
                      + mid_lat a ! (3 * k + 2) ! (2 * j) ! (2 * i))
                   + (mid_lat a ! (3 * k) ! (2 * j + 1) ! (2 * i)
                      + mid_lat a ! (3 * k + 1) ! (2 * j + 1) ! (2 * i)
                      + mid_lat a ! (3 * k + 2) ! (2 * j + 1) ! (2 * i)))
        \<and> y ! k ! j ! i
            = 0.5 * ((mid_lat a ! (3 * k) ! (2 * j) ! (2 * i)
                      + mid_lat a ! (3 * k + 1) ! (2 * j) ! (2 * i)
                      + mid_lat a ! (3 * k + 2) ! (2 * j) ! (2 * i)) / 3
                   + (mid_lat a ! (3 * k) ! (2 * j + 1) ! (2 * i)
                      + mid_lat a ! (3 * k + 1) ! (2 * j + 1) ! (2 * i)
                      + mid_lat a ! (3 * k + 2) ! (2 * j + 1) ! (2 * i)) / 3))"
proof -
  have r: "sel_rows nlat' = nlat' div 2"
    using assms(2) by (auto simp: sel_rows_def elim!: oddE)
  have c: "sel_cols nlon' = nlon' div 2"
    using assms(3) by (auto simp: sel_cols_def elim!: evenE)
  let ?x = "map (block_value sum_axis0 nlat' nlon' (mid_lat a)) [0..<nlev' div 3]"
  let ?y = "map (block_value mean_axis0 nlat' nlon' (mid_lat a)) [0..<nlev' div 3]"
  have x: "subsample sum_axis0 nlev' nlat' nlon' a = Inr ?x"
    using assms(1) r c by (rule subsample_no_broadcast) simp
  have y: "subsample mean_axis0 nlev' nlat' nlon' a = Inr ?y"
    using assms(1) r c by (rule subsample_no_broadcast) simp
  note m = mid_lat_shape[OF assms(1)]
  have mid: "\<forall>l<nlev'. \<forall>r<nlat' - 1. \<forall>c<nlon'.
          mid_lat a ! l ! r ! c = 0.5 * (a ! l ! r ! c + a ! l ! (r + 1) ! c)"
    using mid_lat_nth[OF assms(1)] by blast
  have cells: "?x ! k ! j ! i
            = 0.5 * ((mid_lat a ! (3 * k) ! (2 * j) ! (2 * i)
                      + mid_lat a ! (3 * k + 1) ! (2 * j) ! (2 * i)
                      + mid_lat a ! (3 * k + 2) ! (2 * j) ! (2 * i))
                   + (mid_lat a ! (3 * k) ! (2 * j + 1) ! (2 * i)
                      + mid_lat a ! (3 * k + 1) ! (2 * j + 1) ! (2 * i)
                      + mid_lat a ! (3 * k + 2) ! (2 * j + 1) ! (2 * i)))
        \<and> ?y ! k ! j ! i
            = 0.5 * ((mid_lat a ! (3 * k) ! (2 * j) ! (2 * i)
                      + mid_lat a ! (3 * k + 1) ! (2 * j) ! (2 * i)
                      + mid_lat a ! (3 * k + 2) ! (2 * j) ! (2 * i)) / 3
                   + (mid_lat a ! (3 * k) ! (2 * j + 1) ! (2 * i)
                      + mid_lat a ! (3 * k + 1) ! (2 * j + 1) ! (2 * i)
                      + mid_lat a ! (3 * k + 2) ! (2 * j + 1) ! (2 * i)) / 3)"
    if b: "k < nlev' div 3" "j < nlat' div 2" "i < nlon' div 2" for k j i
  proof -
    have k: "3 * k + 3 \<le> nlev'" using b(1) by linarith
    have j: "j < sel_rows nlat'" using b(2) r by simp
    have i: "i < sel_cols nlon'" using b(3) c by simp
    have nx: "?x ! k = block_value sum_axis0 nlat' nlon' (mid_lat a) k"
      using b(1) by simp
    have ny: "?y ! k = block_value mean_axis0 nlat' nlon' (mid_lat a) k"
      using b(1) by simp
    show ?thesis
      unfolding nx ny
      using block_value_sum(2)[OF m k j i] block_value_mean(2)[OF m k j i] by (simp only:)
  qed
  show ?thesis
    apply (rule exI[of _ ?x], rule exI[of _ ?y])
    apply (intro conjI)
    apply (rule x) apply (rule y) apply (rule mid)
    using cells apply blast done
qed

lemma ex_position_eval:
  "subsample sum_axis0 3 3 2 ex_position_field = Inr [[[24]]]"
  "subsample mean_axis0 3 3 2 ex_position_field = Inr [[[8]]]"
  "shape3 3 3 2 ex_position_field"
  by code_simp+

text \<open>
  Claim C4 as stated fails. On a field of 4 levels that is the level index in every cell,
  so that no horizontal step changes a value, the code gives 0 + 1 + 2 = 3 for the one
  output level; summing the three averages of vertically adjacent levels gives
  0.5 + 1.5 + 2.5 = 4.5. On a field that is the longitude index in every cell, so that
  averaging adjacent levels or latitudes changes nothing, the code gives three times the
  value 0 of the even longitude; the mean of the 2x2 block gives 1.5.
\<close>

theorem subsample_vertical_counterexample:
  "subsample sum_axis0 4 3 2 ex_four_levels = Inr [[[3]]]
   \<and> spec_subsample 4 3 2 ex_four_levels = [[[9 / 2]]]
   \<and> (3 :: real) \<noteq> 9 / 2
   \<and> subsample sum_axis0 4 3 2 ex_lon_field = Inr [[[0]]]
   \<and> spec_subsample 4 3 2 ex_lon_field = [[[3 / 2]]]
   \<and> (0 :: real) \<noteq> 3 / 2"
  by code_simp

theorem subsample_cells_witness:
  "\<exists>x y. subsample sum_axis0 3 3 2 ex_position_field = Inr x
     \<and> subsample mean_axis0 3 3 2 ex_position_field = Inr y
     \<and> x = [[[24]]] \<and> y = [[[8]]]
     \<and> mid_lat ex_position_field ! 0 ! 0 ! 0
         = 0.5 * (ex_position_field ! 0 ! 0 ! 0 + ex_position_field ! 0 ! 1 ! 0)
     \<and> x ! 0 ! 0 ! 0
         = 0.5 * ((mid_lat ex_position_field ! 0 ! 0 ! 0 + mid_lat ex_position_field ! 1 ! 0 ! 0
                   + mid_lat ex_position_field ! 2 ! 0 ! 0)
                + (mid_lat ex_position_field ! 0 ! 1 ! 0 + mid_lat ex_position_field ! 1 ! 1 ! 0
                   + mid_lat ex_position_field ! 2 ! 1 ! 0))
     \<and> y ! 0 ! 0 ! 0
         = 0.5 * ((mid_lat ex_position_field ! 0 ! 0 ! 0 + mid_lat ex_position_field ! 1 ! 0 ! 0
                   + mid_lat ex_position_field ! 2 ! 0 ! 0) / 3
                + (mid_lat ex_position_field ! 0 ! 1 ! 0 + mid_lat ex_position_field ! 1 ! 1 ! 0
                   + mid_lat ex_position_field ! 2 ! 1 ! 0) / 3)"
proof -
  have o: "odd (3 :: nat)" and e: "even (2 :: nat)" by simp_all
  from subsample_cells[OF ex_position_eval(3) o e] obtain x y where
    x: "subsample sum_axis0 3 3 2 ex_position_field = Inr x"
    and y: "subsample mean_axis0 3 3 2 ex_position_field = Inr y"
    and m: "\<forall>l<3. \<forall>r<3 - 1. \<forall>c<2.
          mid_lat ex_position_field ! l ! r ! c
            = 0.5 * (ex_position_field ! l ! r ! c + ex_position_field ! l ! (r + 1) ! c)"
    and c: "\<forall>k<3 div 3. \<forall>j<3 div 2. \<forall>i<2 div 2.
          x ! k ! j ! i
            = 0.5 * ((mid_lat ex_position_field ! (3 * k) ! (2 * j) ! (2 * i)
                      + mid_lat ex_position_field ! (3 * k + 1) ! (2 * j) ! (2 * i)
                      + mid_lat ex_position_field ! (3 * k + 2) ! (2 * j) ! (2 * i))
                   + (mid_lat ex_position_field ! (3 * k) ! (2 * j + 1) ! (2 * i)
                      + mid_lat ex_position_field ! (3 * k + 1) ! (2 * j + 1) ! (2 * i)
                      + mid_lat ex_position_field ! (3 * k + 2) ! (2 * j + 1) ! (2 * i)))
        \<and> y ! k ! j ! i
            = 0.5 * ((mid_lat ex_position_field ! (3 * k) ! (2 * j) ! (2 * i)
                      + mid_lat ex_position_field ! (3 * k + 1) ! (2 * j) ! (2 * i)
                      + mid_lat ex_position_field ! (3 * k + 2) ! (2 * j) ! (2 * i)) / 3
                   + (mid_lat ex_position_field ! (3 * k) ! (2 * j + 1) ! (2 * i)
                      + mid_lat ex_position_field ! (3 * k + 1) ! (2 * j + 1) ! (2 * i)
                      + mid_lat ex_position_field ! (3 * k + 2) ! (2 * j + 1) ! (2 * i)) / 3)"
    by (elim exE conjE) (rule that; assumption)
  have xv: "x = [[[24]]]" using x ex_position_eval(1) by simp
  have yv: "y = [[[8]]]" using y ex_position_eval(2) by simp
  have b: "(0 :: nat) < 3" "(0 :: nat) < 3 - 1" "(0 :: nat) < 2"
    "(0 :: nat) < 3 div 3" "(0 :: nat) < 3 div 2" "(0 :: nat) < 2 div 2"
    by simp_all
  have z: "3 * (0 :: nat) = 0" "2 * (0 :: nat) = 0" "(0 :: nat) + 1 = 1" "(0 :: nat) + 2 = 2"
    by simp_all
  note m0 = m[THEN spec, of 0, THEN mp, OF b(1), THEN spec, of 0, THEN mp, OF b(2),
      THEN spec, of 0, THEN mp, OF b(3), unfolded z]
  note c0 = c[THEN spec, of 0, THEN mp, OF b(4), THEN spec, of 0, THEN mp, OF b(5),
      THEN spec, of 0, THEN mp, OF b(6), unfolded z]
  show ?thesis
    apply (rule exI[of _ x], rule exI[of _ y])
    apply (intro conjI)
    apply (rule x) apply (rule y) apply (rule xv) apply (rule yv)
    apply (rule m0) apply (rule c0[THEN conjunct1]) apply (rule c0[THEN conjunct2]) done
qed

end
